theory Spec2Isabelle
  imports Complex_Main "HOL-Library.Multiset"
begin

section \<open>Python values\<close>

text \<open>
  A Python \<open>str\<close> is a sequence of Unicode code points and \<open>len\<close> counts code points,
  so text is a list of code points here; the answer templates of \<open>rag.py\<close> contain
  code points above 255 (the bullet U+2022). \<open>ascii\<close> reads an ASCII literal.
\<close>

type_synonym codepoint = nat
type_synonym pystr = "codepoint list"

definition ascii :: "string \<Rightarrow> pystr" where
  "ascii s = map of_char s"

definition SPACE :: codepoint where
  "SPACE = 32"

definition DOT :: codepoint where
  "DOT = 46"

definition NEWLINE :: codepoint where
  "NEWLINE = 10"

text \<open>
  Documents are \<open>Dict[str, Any]\<close>: a field may be absent, hold text, hold \<open>None\<close> or hold
  an integer. Floats and containers are left out: the one float that \<open>hybrid_search\<close>
  puts in a document, its \<open>score\<close>, is read by none of the functions below. The keys the
  code looks up are ASCII literals.
\<close>

datatype pyval = PNone | PStr pystr | PInt int

type_synonym doc = "string \<rightharpoonup> pyval"

text \<open>
  The exceptions: three that the code itself can provoke, and \<open>ExternalError\<close> for whatever
  a collaborator outside the repository (embedding model, model client, vector store)
  raises.
\<close>

datatype error = TypeError | AttributeError | KeyError | ExternalError

text \<open>\<open>d.get(k, default)\<close>\<close>

definition dict_get :: "('k \<rightharpoonup> 'v) \<Rightarrow> 'k \<Rightarrow> 'v \<Rightarrow> 'v" where
  "dict_get d k dflt = (case d k of None \<Rightarrow> dflt | Some v \<Rightarrow> v)"

text \<open>Truth value of an object: \<open>None\<close>, the empty string and 0 are falsy.\<close>

definition truthy :: "pyval \<Rightarrow> bool" where
  "truthy v = (case v of PNone \<Rightarrow> False | PStr s \<Rightarrow> s \<noteq> [] | PInt i \<Rightarrow> i \<noteq> 0)"

text \<open>The guard of the similarity loop: the documents it does not skip.\<close>

abbreviation has_text :: "doc \<Rightarrow> bool" where
  "has_text d \<equiv> truthy (dict_get d ''section_text'' (PStr []))"

fun str_of_nat :: "nat \<Rightarrow> pystr" where
  "str_of_nat n = (if n < 10 then [48 + n] else str_of_nat (n div 10) @ [48 + n mod 10])"

declare str_of_nat.simps [simp del]

text \<open>\<open>str(v)\<close>, also what an f-string substitutes for \<open>{v}\<close>.\<close>

definition py_str :: "pyval \<Rightarrow> pystr" where
  "py_str v = (case v of
       PNone \<Rightarrow> ascii ''None''
     | PStr s \<Rightarrow> s
     | PInt i \<Rightarrow> (if i < 0 then ascii ''-'' @ str_of_nat (nat (- i)) else str_of_nat (nat i)))"

text \<open>\<open>v[:n]\<close> for a constant \<open>n \<ge> 0\<close>: a slice of text; \<open>None\<close> and numbers cannot be sliced.\<close>

definition py_prefix :: "nat \<Rightarrow> pyval \<Rightarrow> error + pystr" where
  "py_prefix n v = (case v of PStr s \<Rightarrow> Inr (take n s) | _ \<Rightarrow> Inl TypeError)"

text \<open>\<open>xs[:k]\<close> on a list, for any integer \<open>k\<close>: a negative \<open>k\<close> drops the last \<open>-k\<close> items.\<close>

definition py_take :: "int \<Rightarrow> 'a list \<Rightarrow> 'a list" where
  "py_take k xs = (if 0 \<le> k then take (nat k) xs else take (length xs - nat (- k)) xs)"

text \<open>
  The code points \<open>str.isspace\<close> accepts, which are those \<open>str.strip()\<close> removes.
\<close>

definition py_isspace :: "codepoint \<Rightarrow> bool" where
  "py_isspace c \<longleftrightarrow>
     (9 \<le> c \<and> c \<le> 13) \<or> (28 \<le> c \<and> c \<le> 32) \<or> c = 133 \<or> c = 160 \<or> c = 5760 \<or>
     (8192 \<le> c \<and> c \<le> 8202) \<or> c = 8232 \<or> c = 8233 \<or> c = 8239 \<or> c = 8287 \<or> c = 12288"

definition strip :: "pystr \<Rightarrow> pystr" where
  "strip s = rev (dropWhile py_isspace (rev (dropWhile py_isspace s)))"

text \<open>
  \<open>s.rsplit(sep, 1)[0]\<close> for a one-character separator: the scan starts at the right end;
  the part before the last separator, or all of \<open>s\<close> when it holds none.
\<close>

definition rsplit1_head :: "codepoint \<Rightarrow> pystr \<Rightarrow> pystr" where
  "rsplit1_head sep s =
     (case dropWhile (\<lambda>c. c \<noteq> sep) (rev s) of [] \<Rightarrow> s | _ # before \<Rightarrow> rev before)"

text \<open>\<open>sep.join(parts)\<close>\<close>

fun py_join :: "pystr \<Rightarrow> pystr list \<Rightarrow> pystr" where
  "py_join sep [] = []"
| "py_join sep [p] = p"
| "py_join sep (p # q # ps) = p @ sep @ py_join sep (q # ps)"

text \<open>
  \<open>asyncio.gather\<close> and a loop body that may raise: the results in input order, or the
  exception.
\<close>

fun gather :: "(error + 'a) list \<Rightarrow> error + 'a list" where
  "gather [] = Inr []"
| "gather (Inl e # rs) = Inl e"
| "gather (Inr x # rs) = (case gather rs of Inl e \<Rightarrow> Inl e | Inr xs \<Rightarrow> Inr (x # xs))"

text \<open>
  \<open>list.sort(key=lambda item: item[0], reverse=True)\<close> and
  \<open>sorted(..., key=lambda x: x[0], reverse=True)\<close>: Python's sort is stable, also with
  \<open>reverse=True\<close>. A stable sort by the negated score is the same order. Scores are real
  numbers; a NaN, which no comparison orders, is not a score here.
\<close>

definition sort_by_score_desc :: "(real \<times> 'a) list \<Rightarrow> (real \<times> 'a) list" where
  "sort_by_score_desc scored_docs = sort_key (\<lambda>item. - fst item) scored_docs"

section \<open>rag.py\<close>

subsection \<open>Similarity reranking\<close>

text \<open>
  The embedding model is outside the repository: \<open>encode\<close> (which may raise) and
  \<open>cos_sim\<close> are parameters. The loop of \<open>rerank_documents_with_similarity\<close> skips every
  document whose \<open>section_text\<close> is falsy.
\<close>

fun score_loop ::
  "(pyval \<Rightarrow> error + 'emb) \<Rightarrow> ('emb \<Rightarrow> 'emb \<Rightarrow> real) \<Rightarrow> 'emb \<Rightarrow> doc list \<Rightarrow> error + (real \<times> doc) list"
where
  "score_loop encode cos_sim query_embedding [] = Inr []"
| "score_loop encode cos_sim query_embedding (d # ds) =
     (let text = dict_get d ''section_text'' (PStr []) in
      if \<not> truthy text then score_loop encode cos_sim query_embedding ds
      else (case encode text of
              Inl e \<Rightarrow> Inl e
            | Inr doc_embedding \<Rightarrow>
                (case score_loop encode cos_sim query_embedding ds of
                   Inl e \<Rightarrow> Inl e
                 | Inr rest \<Rightarrow> Inr ((cos_sim query_embedding doc_embedding, d) # rest))))"

definition rerank_documents_with_similarity ::
  "(pyval \<Rightarrow> error + 'emb) \<Rightarrow> ('emb \<Rightarrow> 'emb \<Rightarrow> real) \<Rightarrow> pystr \<Rightarrow> doc list \<Rightarrow> error + doc list"
where
  "rerank_documents_with_similarity encode cos_sim query documents =
     (if documents = [] then Inr []
      else (case encode (PStr query) of
              Inl e \<Rightarrow> Inl e
            | Inr query_embedding \<Rightarrow>
                (case score_loop encode cos_sim query_embedding documents of
                   Inl e \<Rightarrow> Inl e
                 | Inr scored_docs \<Rightarrow> Inr (map snd (sort_by_score_desc scored_docs)))))"

subsection \<open>Answer synthesis\<close>

definition no_info_message :: pystr where
  "no_info_message =
     ascii ''N'' @ [227] @ ascii ''o encontrei informa'' @ [231, 245] @
     ascii ''es relevantes para responder a essa pergunta na base de diagn'' @ [243] @
     ascii ''stico.''"

definition default_disease_name :: pystr where
  "default_disease_name =
     ascii ''Doen'' @ [231] @ ascii ''a n'' @ [227] @ ascii ''o identificada''"

definition default_section_type :: pystr where
  "default_section_type = ascii ''se'' @ [231, 227] @ ascii ''o''"

definition ELLIPSIS :: pystr where
  "ELLIPSIS = ascii ''...''"

definition response_header :: "pystr \<Rightarrow> pystr" where
  "response_header query =
     ascii ''Resumo das principais informa'' @ [231, 245] @ ascii ''es encontradas sobre '' @
     [39] @ query @ [39] @ ascii '':''"

definition closing_recommendation :: pystr where
  "closing_recommendation =
     ascii ''Recomendo avaliar as fontes citadas acima para detalhes adicionais.''"

text \<open>
  Lines 46 to 48: \<open>len\<close> of a value that is not text raises; text longer than 400 code
  points is cut to its first 400, then before the last space among them, and \<open>...\<close> is
  appended.
\<close>

definition truncate_snippet :: "pyval \<Rightarrow> error + pystr" where
  "truncate_snippet snippet =
     (case snippet of
        PStr s \<Rightarrow> Inr (if length s > 400 then rsplit1_head SPACE (take 400 s) @ ELLIPSIS else s)
      | _ \<Rightarrow> Inl TypeError)"

text \<open>The body of the loop over \<open>context_docs[:3]\<close>: one citation block.\<close>

definition citation_block :: "doc \<Rightarrow> error + pystr" where
  "citation_block d =
     (let name = dict_get d ''disease_name'' (PStr default_disease_name);
          section = dict_get d ''section_type'' (PStr default_section_type)
      in case truncate_snippet (dict_get d ''section_text'' (PStr [])) of
           Inl e \<Rightarrow> Inl e
         | Inr snippet \<Rightarrow>
             Inr ([8226] @ ascii '' Fonte: '' @ py_str name @ ascii '' ('' @ py_str section @
                  ascii '')'' @ [NEWLINE] @ ascii ''  '' @ snippet))"

definition generate_rag_response :: "pystr \<Rightarrow> doc list \<Rightarrow> error + pystr" where
  "generate_rag_response query context_docs =
     (if context_docs = [] then Inr no_info_message
      else (case gather (map citation_block (take 3 context_docs)) of
              Inl e \<Rightarrow> Inl e
            | Inr blocks \<Rightarrow>
                Inr (py_join [NEWLINE, NEWLINE]
                       ([response_header query] @ blocks @ [closing_recommendation]))))"

section \<open>test_vetbench_healthbench_style.py: reranking with a scoring model\<close>

text \<open>
  \<open>re.search(r'(\d+\.?\d*)', s)\<close>: the leftmost match starts at the first decimal digit;
  every quantifier is greedy and nothing after it can fail, so the match is the longest run
  of digits there, a dot if one follows, and the digits after that dot. Which code points
  \<open>\d\<close> accepts is a table of the runtime (Unicode category Nd): the parameter
  \<open>is_decimal\<close>.
\<close>

definition first_number :: "(codepoint \<Rightarrow> bool) \<Rightarrow> pystr \<Rightarrow> pystr option" where
  "first_number is_decimal s =
     (case dropWhile (\<lambda>c. \<not> is_decimal c) s of
        [] \<Rightarrow> None
      | c # cs \<Rightarrow>
          (let int_part = takeWhile is_decimal (c # cs);
               after = dropWhile is_decimal (c # cs)
           in Some (case after of
                      [] \<Rightarrow> int_part
                    | a # more \<Rightarrow>
                        if a = DOT then int_part @ [DOT] @ takeWhile is_decimal more
                        else int_part)))"

type_synonym message = "pystr \<times> pystr"

definition scoring_messages :: "pystr \<Rightarrow> pystr \<Rightarrow> message list" where
  "scoring_messages query doc_text =
     [(ascii ''system'', ascii ''You are a helpful assistant.''),
      (ascii ''user'',
       ascii ''Rate the relevance of this document to the query from 0.0 to 1.0. Query: '' @
       query @ ascii ''. Document: '' @ doc_text @ ascii ''. Respond with just a number.'')]"

text \<open>
  \<open>response["content"].strip()\<close> on what the client returned: the call may raise, the key
  may be absent, the content may not be text.
\<close>

definition score_text_of :: "error + (string \<rightharpoonup> pyval) \<Rightarrow> error + pystr" where
  "score_text_of response =
     (case response of
        Inl e \<Rightarrow> Inl e
      | Inr r \<Rightarrow>
          (case r ''content'' of
             None \<Rightarrow> Inl KeyError
           | Some (PStr s) \<Rightarrow> Inr (strip s)
           | Some _ \<Rightarrow> Inl AttributeError))"

text \<open>
  \<open>score_document\<close>: the slice of \<open>section_text\<close> is outside the inner \<open>try\<close>, everything
  else inside it. \<open>float\<close> cannot fail on a match of the pattern; its value is the
  parameter \<open>py_float\<close>. \<open>chat_completion\<close> is the model client.
\<close>

definition score_document ::
  "(codepoint \<Rightarrow> bool) \<Rightarrow> (pystr \<Rightarrow> real) \<Rightarrow> (message list \<Rightarrow> error + (string \<rightharpoonup> pyval)) \<Rightarrow>
   pystr \<Rightarrow> doc \<Rightarrow> error + (real \<times> doc)"
where
  "score_document is_decimal py_float chat_completion query d =
     (case py_prefix 1000 (dict_get d ''section_text'' (PStr [])) of
        Inl e \<Rightarrow> Inl e
      | Inr doc_text \<Rightarrow>
          (case score_text_of (chat_completion (scoring_messages query doc_text)) of
             Inl e \<Rightarrow> Inr (0.5, d)
           | Inr score_text \<Rightarrow>
               (case first_number is_decimal score_text of
                  Some number_match \<Rightarrow> Inr (max 0 (min 1 (py_float number_match)), d)
                | None \<Rightarrow> Inr (0.5, d))))"

text \<open>
  One scoring task per document, in input order. The client is not a function of the
  messages alone (two calls with the same messages may answer differently), so the
  task's position selects its client call. Any exception out of the tasks is caught by the
  outer \<open>try\<close>, which returns the documents as they came.
\<close>

definition scoring_tasks ::
  "(codepoint \<Rightarrow> bool) \<Rightarrow> (pystr \<Rightarrow> real) \<Rightarrow> (nat \<Rightarrow> message list \<Rightarrow> error + (string \<rightharpoonup> pyval)) \<Rightarrow>
   pystr \<Rightarrow> doc list \<Rightarrow> (error + (real \<times> doc)) list"
where
  "scoring_tasks is_decimal py_float chat_completion query documents =
     map (\<lambda>(i, d). score_document is_decimal py_float (chat_completion i) query d)
         (zip [0..<length documents] documents)"

definition rerank_documents_with_model ::
  "(codepoint \<Rightarrow> bool) \<Rightarrow> (pystr \<Rightarrow> real) \<Rightarrow> (nat \<Rightarrow> message list \<Rightarrow> error + (string \<rightharpoonup> pyval)) \<Rightarrow>
   pystr \<Rightarrow> doc list \<Rightarrow> doc list"
where
  "rerank_documents_with_model is_decimal py_float chat_completion query documents =
     (case gather (scoring_tasks is_decimal py_float chat_completion query documents) of
        Inl e \<Rightarrow> documents
      | Inr scored_docs \<Rightarrow> map snd (sort_by_score_desc scored_docs))"

section \<open>vector_service.py\<close>

text \<open>
  \<open>_get_dense_embedding\<close>: \<open>text.strip()\<close> raises on a value that is not text; blank text
  gives \<open>[0.0] * self.embedding_dim\<close>, anything else goes to the embedding model
  (the parameter \<open>encode\<close>, the list that \<open>.tolist()\<close> returns).
\<close>

definition get_dense_embedding ::
  "nat \<Rightarrow> (pystr \<Rightarrow> error + real list) \<Rightarrow> pyval \<Rightarrow> error + real list"
where
  "get_dense_embedding embedding_dim encode text =
     (case text of
        PStr s \<Rightarrow> if strip s = [] then Inr (replicate embedding_dim 0) else encode s
      | _ \<Rightarrow> Inl AttributeError)"

text \<open>The dictionary built for each record; \<open>id_key\<close> is its key \<open>"id"\<close>, the primary key.\<close>

record document_data =
  id_key :: pystr
  document_id :: pystr
  disease_type :: pystr
  disease_name :: pystr
  disease_id :: pystr
  chunk_id :: pystr
  chunk_index :: pystr
  section_type :: pystr
  page_number :: pystr
  section_text :: pystr
  dense_vector :: "real list"

text \<open>The body of the inner \<open>try\<close> of \<open>insert_documents\<close>, for the record at index \<open>i\<close>.\<close>

definition process_document ::
  "nat \<Rightarrow> (pystr \<Rightarrow> error + real list) \<Rightarrow> nat \<Rightarrow> doc \<Rightarrow> error + document_data"
where
  "process_document embedding_dim encode i d =
     (case get_dense_embedding embedding_dim encode (dict_get d ''section_text'' (PStr [])) of
        Inl e \<Rightarrow> Inl e
      | Inr vec \<Rightarrow>
          (let stripped = strip (py_str (dict_get d ''chunk_id'' (PStr [])));
               cid = (if stripped = [] then ascii ''chunk_'' @ str_of_nat (i + 1) else stripped)
           in Inr \<lparr>id_key = cid,
                   document_id = py_str (dict_get d ''document_id'' (PStr [])),
                   disease_type = py_str (dict_get d ''disease_type'' (PStr [])),
                   disease_name = py_str (dict_get d ''disease_name'' (PStr [])),
                   disease_id = py_str (dict_get d ''disease_id'' (PStr [])),
                   chunk_id = cid,
                   chunk_index = py_str (dict_get d ''chunk_index'' (PStr [])),
                   section_type = py_str (dict_get d ''section_type'' (PStr [])),
                   page_number = py_str (dict_get d ''page_number'' (PStr [])),
                   section_text = py_str (dict_get d ''section_text'' (PStr [])),
                   dense_vector = vec\<rparr>))"

text \<open>
  The loop over \<open>enumerate(documents)\<close>: a record whose processing raises is logged and
  skipped.
\<close>

fun prepare_data ::
  "nat \<Rightarrow> (pystr \<Rightarrow> error + real list) \<Rightarrow> (nat \<times> doc) list \<Rightarrow> document_data list"
where
  "prepare_data embedding_dim encode [] = []"
| "prepare_data embedding_dim encode ((i, d) # rest) =
     (case process_document embedding_dim encode i d of
        Inl e \<Rightarrow> prepare_data embedding_dim encode rest
      | Inr document_data \<Rightarrow> document_data # prepare_data embedding_dim encode rest)"

text \<open>
  \<open>insert_documents\<close> returns its boolean and, beside it, the batches it handed to
  \<open>client.insert\<close> (none or one). The store is outside the repository: \<open>client_insert\<close>
  tells whether the call raised.
\<close>

definition insert_documents ::
  "nat \<Rightarrow> (pystr \<Rightarrow> error + real list) \<Rightarrow> (document_data list \<Rightarrow> error + unit) \<Rightarrow> doc list \<Rightarrow>
   bool \<times> document_data list list"
where
  "insert_documents embedding_dim encode client_insert documents =
     (if documents = [] then (False, [])
      else (let data = prepare_data embedding_dim encode (zip [0..<length documents] documents)
            in if data = [] then (False, [])
               else (case client_insert data of
                       Inl e \<Rightarrow> (False, [data])
                     | Inr u \<Rightarrow> (True, [data]))))"

section \<open>rag_service.py\<close>

record 'vs rag_service =
  vector_service :: "'vs option"
  top_k_default :: int

text \<open>\<open>RAGService(top_k_default)\<close>; the constructor's default is 5.\<close>

definition RAGService :: "int \<Rightarrow> 'vs rag_service" where
  "RAGService k = \<lparr>vector_service = None, top_k_default = k\<rparr>"

definition RAGService_default :: "'vs rag_service" where
  "RAGService_default = RAGService 5"

record answer_result =
  answer :: pystr
  sources :: "doc list"

text \<open>
  The calls \<open>ask\<close> makes, in order, are returned beside its result, so that a theorem can
  say which collaborators ran.
\<close>

datatype call =
    CallSearch pystr int
  | CallRerank pystr "doc list"
  | CallSynthesize pystr "doc list"

text \<open>
  \<open>startup\<close>: \<open>VectorService()\<close> is assigned before \<open>initialize()\<close> is awaited, so a
  failing \<open>initialize\<close> leaves the attribute set.
\<close>

definition startup ::
  "(error + 'vs) \<Rightarrow> ('vs \<Rightarrow> error + unit) \<Rightarrow> 'vs rag_service \<Rightarrow> (error + unit) \<times> 'vs rag_service"
where
  "startup new_vector_service initialize svc =
     (if vector_service svc = None then
        (case new_vector_service of
           Inl e \<Rightarrow> (Inl e, svc)
         | Inr vs \<Rightarrow> (initialize vs, svc\<lparr>vector_service := Some vs\<rparr>))
      else (Inr (), svc))"

text \<open>\<open>top_k or self.top_k_default\<close>: \<open>None\<close> and 0 are falsy.\<close>

definition top_k_or_default :: "int option \<Rightarrow> int \<Rightarrow> int" where
  "top_k_or_default top_k dflt =
     (case top_k of None \<Rightarrow> dflt | Some k \<Rightarrow> if k = 0 then dflt else k)"

definition fallback_answer :: pystr where
  "fallback_answer =
     ascii ''N'' @ [227] @ ascii ''o encontrei informa'' @ [231, 245] @
     ascii ''es relevantes na base de diagn'' @ [243] @ ascii ''stico.''"

text \<open>One entry of \<open>sources\<close>; \<open>doc.get(key)\<close> is \<open>None\<close> for an absent key.\<close>

definition source_entry :: "doc \<Rightarrow> error + doc" where
  "source_entry d =
     (case py_prefix 200 (dict_get d ''section_text'' (PStr [])) of
        Inl e \<Rightarrow> Inl e
      | Inr preview \<Rightarrow>
          Inr [''disease_name'' \<mapsto> dict_get d ''disease_name'' PNone,
               ''section_type'' \<mapsto> dict_get d ''section_type'' PNone,
               ''page_number'' \<mapsto> dict_get d ''page_number'' PNone,
               ''content_preview'' \<mapsto> PStr preview])"

text \<open>
  \<open>ask\<close>, with the vector store (\<open>new_vector_service\<close>, \<open>initialize\<close>, \<open>hybrid_search\<close>)
  and the embedding model as parameters. The result is what \<open>ask\<close> returns or raises, the
  service afterwards, and the calls made.
\<close>

definition ask ::
  "(error + 'vs) \<Rightarrow> ('vs \<Rightarrow> error + unit) \<Rightarrow> ('vs \<Rightarrow> pystr \<Rightarrow> int \<Rightarrow> error + doc list) \<Rightarrow>
   (pyval \<Rightarrow> error + 'emb) \<Rightarrow> ('emb \<Rightarrow> 'emb \<Rightarrow> real) \<Rightarrow>
   'vs rag_service \<Rightarrow> pystr \<Rightarrow> int option \<Rightarrow>
   (error + answer_result) \<times> 'vs rag_service \<times> call list"
where
  "ask new_vector_service initialize hybrid_search encode cos_sim svc query top_k_arg =
     (case startup new_vector_service initialize svc of
        (Inl e, svc') \<Rightarrow> (Inl e, svc', [])
      | (Inr u, svc') \<Rightarrow>
          (case vector_service svc' of
             None \<Rightarrow> (Inl AttributeError, svc', [])
           | Some vs \<Rightarrow>
               (let top_k = top_k_or_default top_k_arg (top_k_default svc');
                    searched = [CallSearch query (top_k * 2)]
                in case hybrid_search vs query (top_k * 2) of
                     Inl e \<Rightarrow> (Inl e, svc', searched)
                   | Inr documents \<Rightarrow>
                       if documents = [] then
                         (Inr \<lparr>answer = fallback_answer, sources = []\<rparr>, svc', searched)
                       else
                         (let reranked = searched @ [CallRerank query documents]
                          in case rerank_documents_with_similarity encode cos_sim query documents of
                               Inl e \<Rightarrow> (Inl e, svc', reranked)
                             | Inr ranked \<Rightarrow>
                                 (let selected = py_take top_k ranked;
                                      synthesized = reranked @ [CallSynthesize query selected]
                                  in case generate_rag_response query selected of
                                       Inl e \<Rightarrow> (Inl e, svc', synthesized)
                                     | Inr answer_text \<Rightarrow>
                                         (case gather (map source_entry selected) of
                                            Inl e \<Rightarrow> (Inl e, svc', synthesized)
                                          | Inr srcs \<Rightarrow>
                                              (Inr \<lparr>answer = answer_text, sources = srcs\<rparr>,
                                               svc', synthesized)))))))"

section \<open>Example inputs\<close>

text \<open>A text of 406 characters: 395 letters \<open>a\<close>, a space, ten letters \<open>b\<close>.\<close>

definition long_text :: pystr where
  "long_text = replicate 395 97 @ SPACE # replicate 10 98"

text \<open>
  A stand-in embedding model: the embedding of a text is the text, and two embeddings are
  similar (1) when equal, dissimilar (0) otherwise.
\<close>

definition example_encode :: "pyval \<Rightarrow> error + pystr" where
  "example_encode v = (case v of PStr s \<Rightarrow> Inr s | _ \<Rightarrow> Inl TypeError)"

definition example_cos_sim :: "pystr \<Rightarrow> pystr \<Rightarrow> real" where
  "example_cos_sim a b = (if a = b then 1 else 0)"

text \<open>Example documents.\<close>

definition doc_mastite :: doc where
  "doc_mastite = [''disease_name'' \<mapsto> PStr (ascii ''Mastite''), ''section_text'' \<mapsto> PStr (ascii ''mastite'')]"

definition doc_febre :: doc where
  "doc_febre = [''disease_name'' \<mapsto> PStr (ascii ''Febre aftosa''), ''section_text'' \<mapsto> PStr (ascii ''febre'')]"

definition doc_blank :: doc where
  "doc_blank = [''disease_name'' \<mapsto> PStr (ascii ''BVD''), ''section_text'' \<mapsto> PStr []]"

definition doc_bvd :: doc where
  "doc_bvd = [''disease_name'' \<mapsto> PStr (ascii ''BVD''), ''section_text'' \<mapsto> PStr (ascii ''diarreia'')]"


text \<open>
  A stand-in for the runtime's tables: the ASCII digits as the decimal digits, and the
  exact value of an ASCII decimal numeral as \<open>float\<close>.
\<close>

definition ascii_decimal :: "codepoint \<Rightarrow> bool" where
  "ascii_decimal c \<longleftrightarrow> 48 \<le> c \<and> c \<le> 57"

definition digits_value :: "pystr \<Rightarrow> nat" where
  "digits_value ds = foldl (\<lambda>acc c. 10 * acc + (c - 48)) 0 ds"

definition ascii_float :: "pystr \<Rightarrow> real" where
  "ascii_float tok =
     (let int_part = takeWhile (\<lambda>c. c \<noteq> DOT) tok;
          frac = drop 1 (dropWhile (\<lambda>c. c \<noteq> DOT) tok)
      in real (digits_value int_part) + real (digits_value frac) / 10 ^ length frac)"

text \<open>
  A stand-in model client: its first call raises, its second call answers with a rating,
  every later call answers without a number.
\<close>

definition example_chat :: "nat \<Rightarrow> message list \<Rightarrow> error + (string \<rightharpoonup> pyval)" where
  "example_chat i messages =
     (if i = 0 then Inl ExternalError
      else if i = 1 then Inr [''content'' \<mapsto> PStr (ascii ''Score: 0.8 '')]
      else Inr [''content'' \<mapsto> PStr (ascii ''high'')])"

text \<open>
  Stand-ins for the embedding model of the vector service: one that always raises, one
  that returns the same two-dimensional vector for every text.
\<close>

definition failing_encode :: "pystr \<Rightarrow> error + real list" where
  "failing_encode s = Inl ExternalError"

definition constant_encode :: "pystr \<Rightarrow> error + real list" where
  "constant_encode s = Inr [1, 0]"

text \<open>A stand-in store client whose \<open>insert\<close> succeeds.\<close>

definition accepting_insert :: "document_data list \<Rightarrow> error + unit" where
  "accepting_insert data = Inr ()"

text \<open>Example records for insertion.\<close>

definition chunk_named :: doc where
  "chunk_named = [''chunk_id'' \<mapsto> PStr (ascii '' c-1 ''), ''section_text'' \<mapsto> PStr (ascii ''mastite'')]"

definition chunk_unnamed :: doc where
  "chunk_unnamed = [''section_text'' \<mapsto> PStr (ascii ''febre'')]"

definition chunk_blank_name :: doc where
  "chunk_blank_name = [''chunk_id'' \<mapsto> PStr (ascii ''   ''), ''section_text'' \<mapsto> PStr []]"

text \<open>
  A stand-in vector store: a corpus of six documents, of which a search returns the first
  \<open>limit\<close>; and an empty store.
\<close>

definition doc_tristeza :: doc where
  "doc_tristeza = [''disease_name'' \<mapsto> PStr (ascii ''Tristeza parasitaria''), ''section_text'' \<mapsto> PStr (ascii ''carrapato'')]"

definition doc_brucelose :: doc where
  "doc_brucelose = [''disease_name'' \<mapsto> PStr (ascii ''Brucelose''), ''section_text'' \<mapsto> PStr (ascii ''aborto'')]"

definition doc_raiva :: doc where
  "doc_raiva = [''disease_name'' \<mapsto> PStr (ascii ''Raiva''), ''section_text'' \<mapsto> PStr (ascii ''paralisia'')]"

definition example_corpus :: "doc list" where
  "example_corpus = [doc_febre, doc_bvd, doc_mastite, doc_tristeza, doc_brucelose, doc_raiva]"

definition example_initialize :: "unit \<Rightarrow> error + unit" where
  "example_initialize vs = Inr ()"

definition example_search :: "unit \<Rightarrow> pystr \<Rightarrow> int \<Rightarrow> error + doc list" where
  "example_search vs query limit = Inr (take (nat limit) example_corpus)"

definition empty_search :: "unit \<Rightarrow> pystr \<Rightarrow> int \<Rightarrow> error + doc list" where
  "empty_search vs query limit = Inr []"

section \<open>Properties of the helpers\<close>

lemma rsplit1_head_no_sep: "sep \<notin> set s \<Longrightarrow> rsplit1_head sep s = s"
proof -
  assume a: "sep \<notin> set s"
  then have "dropWhile (\<lambda>c. c \<noteq> sep) (rev s) = []"
    by auto
  then show ?thesis unfolding rsplit1_head_def by (simp only: list.case)
qed

lemma rsplit1_head_sep:
  assumes "sep \<in> set s"
  shows "\<exists>rest. s = rsplit1_head sep s @ sep # rest \<and> sep \<notin> set rest"
proof -
  let ?P = "\<lambda>c. c \<noteq> sep"
  from assms have ne: "dropWhile ?P (rev s) \<noteq> []"
    by auto
  then obtain h before where db: "dropWhile ?P (rev s) = h # before"
    by (cases "dropWhile ?P (rev s)") auto
  have "\<not> ?P (hd (dropWhile ?P (rev s)))" using ne by (rule hd_dropWhile)
  with db have h: "h = sep" by simp
  have "rev s = takeWhile ?P (rev s) @ dropWhile ?P (rev s)" by simp
  with db h have "rev s = takeWhile ?P (rev s) @ sep # before" by simp
  then have "rev (rev s) = rev (takeWhile ?P (rev s) @ sep # before)" by (rule arg_cong)
  then have s: "s = rev before @ sep # rev (takeWhile ?P (rev s))" by simp
  have r: "rsplit1_head sep s = rev before" using db by (simp add: rsplit1_head_def)
  have "sep \<notin> set (rev (takeWhile ?P (rev s)))"
    using set_takeWhileD by fastforce
  with s r show ?thesis by metis
qed

lemma rsplit1_head_length: "length (rsplit1_head sep s) \<le> length s"
proof (cases "sep \<in> set s")
  case True
  from rsplit1_head_sep[OF True] obtain rest where "s = rsplit1_head sep s @ sep # rest" by blast
  then have "length s = length (rsplit1_head sep s) + Suc (length rest)"
    by (metis length_append length_Cons)
  then show ?thesis by simp
next
  case False
  then show ?thesis by (simp add: rsplit1_head_no_sep)
qed

lemma rsplit1_head_prefix: "\<exists>tail. s = rsplit1_head sep s @ tail"
proof (cases "sep \<in> set s")
  case True
  from rsplit1_head_sep[OF True] show ?thesis by blast
next
  case False
  then show ?thesis by (simp add: rsplit1_head_no_sep)
qed

lemma length_ELLIPSIS: "length ELLIPSIS = 3"
  by (simp add: ELLIPSIS_def ascii_def)

lemma gather_map_Inr: "gather (map Inr xs) = Inr xs"
  by (induction xs) simp_all

lemma gather_Inr_D: "gather rs = Inr xs \<Longrightarrow> rs = map Inr xs"
  by (induction rs arbitrary: xs rule: gather.induct) (auto split: sum.splits)

lemma gather_Inr_iff: "gather rs = Inr xs \<longleftrightarrow> rs = map Inr xs"
  using gather_map_Inr gather_Inr_D by blast

lemma gather_Inl_mem: "gather rs = Inl e \<Longrightarrow> Inl e \<in> set rs"
  by (induction rs rule: gather.induct) (auto split: sum.splits)

lemma gather_map_total:
  "(\<forall>x\<in>set xs. \<exists>y. f x = Inr y) \<Longrightarrow> \<exists>ys. gather (map f xs) = Inr ys"
proof (induction xs)
  case Nil
  then show ?case by simp
next
  case (Cons x xs)
  then obtain y ys where "f x = Inr y" "gather (map f xs) = Inr ys" by auto
  then show ?case by simp
qed

section \<open>Snippet truncation\<close>

text \<open>
  C2, as the spec states it: for a document whose \<open>section_text\<close> is longer than 400
  characters the snippet has length at most 400, is not cut inside a word and ends with
  the ellipsis. The code appends the ellipsis after cutting to 400, and keeps all 400
  characters when none of them is a space: for 401 letters \<open>a\<close> the snippet is 400 letters
  and the ellipsis, 403 characters, cut inside the word.
\<close>

theorem snippet_length_counterexample:
  "length (replicate 401 (97::nat)) > 400 \<and>
   truncate_snippet (dict_get [''section_text'' \<mapsto> PStr (replicate 401 97)] ''section_text'' (PStr []))
     = Inr (replicate 400 97 @ ELLIPSIS) \<and>
   length (replicate 400 (97::nat) @ ELLIPSIS) = 403"
  by (simp add: truncate_snippet_def dict_get_def rsplit1_head_def SPACE_def length_ELLIPSIS)

text \<open>
  C2, amended: for a document whose \<open>section_text\<close> is text longer than 400 characters,
  the snippet in its citation block is a kept prefix of the text followed by the ellipsis
  \<open>...\<close>, at most 403 characters in all; when the first 400 characters hold a space, the
  kept prefix is what precedes the last space among them: the cut is at that space.
\<close>

theorem snippet_truncation:
  assumes "d ''section_text'' = Some (PStr s)" and "length s > 400"
  shows "\<exists>kept label tail.
           truncate_snippet (dict_get d ''section_text'' (PStr [])) = Inr (kept @ ELLIPSIS) \<and>
           citation_block d = Inr (label @ kept @ ELLIPSIS) \<and>
           length (kept @ ELLIPSIS) \<le> 403 \<and>
           s = kept @ tail \<and>
           (SPACE \<in> set (take 400 s) \<longrightarrow>
              (\<exists>rest. take 400 s = kept @ SPACE # rest \<and> SPACE \<notin> set rest))"
proof -
  let ?kept = "rsplit1_head SPACE (take 400 s)"
  have t: "truncate_snippet (dict_get d ''section_text'' (PStr [])) = Inr (?kept @ ELLIPSIS)"
    using assms by (simp add: truncate_snippet_def dict_get_def)
  have c: "\<exists>label. citation_block d = Inr (label @ ?kept @ ELLIPSIS)"
    using t by (simp add: citation_block_def Let_def)
  have "length ?kept \<le> length (take 400 s)" by (rule rsplit1_head_length)
  then have l: "length (?kept @ ELLIPSIS) \<le> 403" by (simp add: length_ELLIPSIS)
  from rsplit1_head_prefix[of "take 400 s" SPACE] obtain tail' where
    "take 400 s = ?kept @ tail'" by blast
  then have "s = ?kept @ tail' @ drop 400 s" by (metis append.assoc append_take_drop_id)
  then have p: "\<exists>tail. s = ?kept @ tail" by blast
  have k: "SPACE \<in> set (take 400 s) \<longrightarrow>
             (\<exists>rest. take 400 s = ?kept @ SPACE # rest \<and> SPACE \<notin> set rest)"
    using rsplit1_head_sep[of SPACE "take 400 s"] by blast
  from t c l p k show ?thesis by blast
qed

theorem snippet_truncation_witness:
  "\<exists>kept label tail.
     truncate_snippet (dict_get [''section_text'' \<mapsto> PStr long_text] ''section_text'' (PStr []))
       = Inr (kept @ ELLIPSIS) \<and>
     citation_block [''section_text'' \<mapsto> PStr long_text] = Inr (label @ kept @ ELLIPSIS) \<and>
     length (kept @ ELLIPSIS) \<le> 403 \<and>
     long_text = kept @ tail \<and>
     SPACE \<in> set (take 400 long_text) \<and>
     (\<exists>rest. take 400 long_text = kept @ SPACE # rest \<and> SPACE \<notin> set rest)"
proof -
  have h1: "[''section_text'' \<mapsto> PStr long_text] ''section_text'' = Some (PStr long_text)"
    by simp
  have h2: "length long_text > 400"
    by (simp add: long_text_def)
  have h3: "SPACE \<in> set (take 400 long_text)"
    by (simp add: long_text_def)
  from snippet_truncation [of "[''section_text'' \<mapsto> PStr long_text]" long_text, OF h1 h2] h3
  show ?thesis by blast
qed

section \<open>The synthesizer\<close>

lemma truncate_snippet_text: "\<exists>t. truncate_snippet (PStr s) = Inr t"
  by (simp add: truncate_snippet_def)

lemma truncate_snippet_Inl: "truncate_snippet v = Inl e \<Longrightarrow> \<forall>s. v \<noteq> PStr s"
  by (auto simp: truncate_snippet_def split: pyval.splits)

lemma citation_block_Inl:
  "citation_block d = Inl e \<Longrightarrow> \<exists>v. d ''section_text'' = Some v \<and> (\<forall>s. v \<noteq> PStr s)"
  by (auto simp: citation_block_def Let_def dict_get_def truncate_snippet_def
           split: sum.splits option.splits pyval.splits)

lemma citation_block_total:
  "d ''section_text'' = None \<or> (\<exists>s. d ''section_text'' = Some (PStr s)) \<Longrightarrow>
   \<exists>b. citation_block d = Inr b"
  by (auto simp: citation_block_def Let_def dict_get_def truncate_snippet_def)

lemma generate_rag_response_Inl:
  assumes "generate_rag_response query docs = Inl e"
  shows "\<exists>d\<in>set (take 3 docs). \<exists>v. d ''section_text'' = Some v \<and> (\<forall>s. v \<noteq> PStr s)"
proof -
  from assms have "gather (map citation_block (take 3 docs)) = Inl e"
    by (auto simp: generate_rag_response_def split: if_splits sum.splits)
  then have "Inl e \<in> set (map citation_block (take 3 docs))" by (rule gather_Inl_mem)
  then obtain d where "d \<in> set (take 3 docs)" "citation_block d = Inl e" by auto
  then show ?thesis using citation_block_Inl by blast
qed

lemma generate_rag_response_text_none:
  "generate_rag_response query [[''section_text'' \<mapsto> PNone]] = Inl TypeError"
  by (simp add: generate_rag_response_def citation_block_def dict_get_def truncate_snippet_def)







section \<open>Reranking\<close>

lemma score_loop_docs:
  "score_loop encode cos_sim qe docs = Inr scored \<Longrightarrow>
   map snd scored = filter (\<lambda>d. truthy (dict_get d ''section_text'' (PStr []))) docs"
proof (induction docs arbitrary: scored)
  case Nil
  then show ?case by simp
next
  case (Cons d ds)
  then show ?case
    by (auto simp: Let_def split: if_splits sum.splits)
qed

lemma score_loop_total:
  "(\<forall>d\<in>set docs. truthy (dict_get d ''section_text'' (PStr [])) \<longrightarrow>
       (\<exists>emb. encode (dict_get d ''section_text'' (PStr [])) = Inr emb)) \<Longrightarrow>
   \<exists>scored. score_loop encode cos_sim qe docs = Inr scored"
proof (induction docs)
  case Nil
  then show ?case by simp
next
  case (Cons d ds)
  then obtain rest where r: "score_loop encode cos_sim qe ds = Inr rest" by auto
  show ?case
  proof (cases "truthy (dict_get d ''section_text'' (PStr []))")
    case True
    with Cons.prems obtain emb where "encode (dict_get d ''section_text'' (PStr [])) = Inr emb"
      by auto
    with True r show ?thesis by (simp add: Let_def)
  next
    case False
    with r show ?thesis by (simp add: Let_def)
  qed
qed

lemma mset_sort_by_score_desc: "mset (map snd (sort_by_score_desc scored)) = mset (map snd scored)"
  by (simp add: sort_by_score_desc_def)

lemma sort_by_score_desc_stable:
  "filter (\<lambda>p. fst p = k) (sort_by_score_desc scored) = filter (\<lambda>p. fst p = k) scored"
proof -
  have "filter (\<lambda>p. - fst p = - k) (sort_key (\<lambda>item. - fst item) scored) =
        filter (\<lambda>p. - fst p = - k) scored"
    by (rule sort_key_stable)
  then show ?thesis by (simp add: sort_by_score_desc_def)
qed

lemma sorted_uminus_rev: "sorted (map uminus (xs :: real list)) \<Longrightarrow> sorted (rev xs)"
  by (induction xs) (auto simp: sorted_append)

lemma sort_by_score_desc_sorted: "sorted (rev (map fst (sort_by_score_desc scored)))"
proof -
  have "sorted (map (\<lambda>item. - fst item) (sort_key (\<lambda>item. - fst item) scored))"
    by (rule sorted_sort_key)
  then have "sorted (map uminus (map fst (sort_by_score_desc scored)))"
    by (simp add: sort_by_score_desc_def comp_def)
  then show ?thesis by (rule sorted_uminus_rev)
qed

lemma filter_nth_ordered:
  assumes "i < j" and "j < length xs" and "P (xs ! i)" and "P (xs ! j)"
  shows "\<exists>a b. a < b \<and> b < length (filter P xs) \<and>
               filter P xs ! a = xs ! i \<and> filter P xs ! b = xs ! j"
proof -
  let ?ys = "drop (Suc i) xs"
  let ?m = "j - Suc i"
  from assms have i: "i < length xs" by simp
  from assms have m: "?m < length ?ys" by simp
  from assms have ym: "?ys ! ?m = xs ! j" by simp
  have xs: "xs = take i xs @ xs ! i # ?ys" using i by (rule id_take_nth_drop)
  have ys: "?ys = take ?m ?ys @ ?ys ! ?m # drop (Suc ?m) ?ys" using m by (rule id_take_nth_drop)
  let ?f1 = "filter P (take i xs)"
  let ?f2 = "filter P (take ?m ?ys)"
  let ?f3 = "filter P (drop (Suc ?m) ?ys)"
  have "filter P xs = filter P (take i xs @ xs ! i # ?ys)" using xs by simp
  also have "\<dots> = ?f1 @ xs ! i # filter P ?ys" using assms(3) by simp
  also have "filter P ?ys = filter P (take ?m ?ys @ ?ys ! ?m # drop (Suc ?m) ?ys)"
    using ys by simp
  also have "\<dots> = ?f2 @ xs ! j # ?f3" using assms(4) ym by simp
  finally have f: "filter P xs = ?f1 @ xs ! i # ?f2 @ xs ! j # ?f3" .
  let ?a = "length ?f1"
  let ?b = "length ?f1 + Suc (length ?f2)"
  have "?a < ?b" by simp
  moreover have "?b < length (filter P xs)" by (subst f) simp
  moreover have "filter P xs ! ?a = xs ! i" by (subst f) simp
  moreover have "filter P xs ! ?b = xs ! j"
    by (subst f) (simp add: nth_append)
  ultimately show ?thesis by blast
qed

lemma nth_filter_ordered:
  assumes "a < b" and "b < length (filter P xs)"
  shows "\<exists>i j. i < j \<and> j < length xs \<and> xs ! i = filter P xs ! a \<and> xs ! j = filter P xs ! b"
  using assms
proof (induction xs arbitrary: a b)
  case Nil
  then show ?case by simp
next
  case (Cons x xs)
  show ?case
  proof (cases "P x")
    case False
    with Cons.prems have "b < length (filter P xs)" by simp
    from Cons.IH[OF Cons.prems(1) this] obtain i j where
      "i < j" "j < length xs" "xs ! i = filter P xs ! a" "xs ! j = filter P xs ! b" by blast
    with False have "Suc i < Suc j \<and> Suc j < length (x # xs) \<and>
        (x # xs) ! Suc i = filter P (x # xs) ! a \<and> (x # xs) ! Suc j = filter P (x # xs) ! b"
      by simp
    then show ?thesis by blast
  next
    case True
    from Cons.prems obtain b' where b: "b = Suc b'" by (cases b) auto
    with Cons.prems True have b': "b' < length (filter P xs)" by simp
    show ?thesis
    proof (cases a)
      case 0
      from b' have "filter P xs ! b' \<in> set (filter P xs)" by (rule nth_mem)
      then have "filter P xs ! b' \<in> set xs" by (metis filter_is_subset subsetD)
      then obtain j where "j < length xs" "xs ! j = filter P xs ! b'"
        by (auto simp: in_set_conv_nth)
      with True 0 b have "0 < Suc j \<and> Suc j < length (x # xs) \<and>
          (x # xs) ! 0 = filter P (x # xs) ! a \<and> (x # xs) ! Suc j = filter P (x # xs) ! b"
        by simp
      then show ?thesis by blast
    next
      case (Suc a')
      with Cons.prems b have "a' < b'" by simp
      from Cons.IH[OF this b'] obtain i j where
        "i < j" "j < length xs" "xs ! i = filter P xs ! a'" "xs ! j = filter P xs ! b'" by blast
      with True Suc b have "Suc i < Suc j \<and> Suc j < length (x # xs) \<and>
          (x # xs) ! Suc i = filter P (x # xs) ! a \<and> (x # xs) ! Suc j = filter P (x # xs) ! b"
        by simp
      then show ?thesis by blast
    qed
  qed
qed

lemma stable_pairs:
  assumes st: "\<And>k. filter (\<lambda>p. f p = k) ys = filter (\<lambda>p. f p = k) xs"
    and "i < j" and "j < length xs" and "f (xs ! i) = f (xs ! j)"
  shows "\<exists>i' j'. i' < j' \<and> j' < length ys \<and> ys ! i' = xs ! i \<and> ys ! j' = xs ! j"
proof -
  let ?P = "\<lambda>p. f p = f (xs ! j)"
  from assms have "?P (xs ! i)" "?P (xs ! j)" by simp_all
  from filter_nth_ordered[of i j xs ?P, OF assms(2) assms(3) this]
  obtain a b where ab: "a < b" "b < length (filter ?P xs)"
    "filter ?P xs ! a = xs ! i" "filter ?P xs ! b = xs ! j" by blast
  have e: "filter ?P ys = filter ?P xs" by (rule st)
  with ab have "b < length (filter ?P ys)" by simp
  from nth_filter_ordered[OF ab(1) this] obtain i' j' where
    "i' < j'" "j' < length ys" "ys ! i' = filter ?P ys ! a" "ys ! j' = filter ?P ys ! b" by blast
  with e ab show ?thesis by auto
qed

lemma sort_by_score_desc_pairs:
  assumes "i < j" and "j < length scored" and "fst (scored ! i) = fst (scored ! j)"
  shows "\<exists>i' j'. i' < j' \<and> j' < length (sort_by_score_desc scored) \<and>
                 sort_by_score_desc scored ! i' = scored ! i \<and>
                 sort_by_score_desc scored ! j' = scored ! j"
  using sort_by_score_desc_stable assms by (rule stable_pairs)

lemma rerank_similarity_Inr:
  assumes "rerank_documents_with_similarity encode cos_sim query docs = Inr out"
  shows "\<exists>scored. map snd scored = filter (\<lambda>d. truthy (dict_get d ''section_text'' (PStr []))) docs \<and>
           out = map snd (sort_by_score_desc scored) \<and>
           (docs \<noteq> [] \<longrightarrow> (\<exists>qe. encode (PStr query) = Inr qe \<and> score_loop encode cos_sim qe docs = Inr scored))"
proof (cases "docs = []")
  case True
  with assms have "out = []" by (simp add: rerank_documents_with_similarity_def)
  with True show ?thesis by (simp add: sort_by_score_desc_def)
next
  case False
  with assms obtain qe scored where
    q: "encode (PStr query) = Inr qe" and s: "score_loop encode cos_sim qe docs = Inr scored"
    and o: "out = map snd (sort_by_score_desc scored)"
    by (auto simp: rerank_documents_with_similarity_def split: sum.splits)
  from score_loop_docs[OF s] q s o show ?thesis by blast
qed


lemma score_document_snd:
  "score_document is_decimal py_float chat query d = Inr p \<Longrightarrow> snd p = d"
  by (auto simp: score_document_def split: sum.splits option.splits)

lemma score_document_eq:
  "py_prefix 1000 (dict_get d ''section_text'' (PStr [])) = Inr doc_text \<Longrightarrow>
   score_document is_decimal py_float chat query d =
     Inr (case score_text_of (chat (scoring_messages query doc_text)) of
            Inl e \<Rightarrow> 0.5
          | Inr score_text \<Rightarrow>
              (case first_number is_decimal score_text of
                 Some number_match \<Rightarrow> max 0 (min 1 (py_float number_match))
               | None \<Rightarrow> 0.5), d)"
  by (simp add: score_document_def split: sum.splits option.splits)

lemma score_document_total:
  "py_prefix 1000 (dict_get d ''section_text'' (PStr [])) = Inr doc_text \<Longrightarrow>
   \<exists>score. score_document is_decimal py_float chat query d = Inr (score, d)"
  using score_document_eq by blast

lemma map_zip_Inr_snd:
  assumes "length ns = length docs"
    and "map (\<lambda>(i, d). f i d) (zip ns docs) = map Inr scored"
    and "\<And>i d p. f i d = Inr p \<Longrightarrow> snd p = d"
  shows "map snd scored = docs"
  using assms
proof (induction ns docs arbitrary: scored rule: list_induct2)
  case Nil
  then show ?case by simp
next
  case (Cons n ns d ds)
  then obtain p ps where sc: "scored = p # ps" by (cases scored) auto
  with Cons.prems have hd: "f n d = Inr p"
    and tl: "map (\<lambda>(i, d). f i d) (zip ns ds) = map Inr ps" by auto
  from Cons.prems(2)[OF hd] have "snd p = d" .
  moreover from Cons.IH[OF tl Cons.prems(2)] have "map snd ps = ds" .
  ultimately show ?case using sc by simp
qed

lemma scoring_tasks_docs:
  assumes "gather (scoring_tasks is_decimal py_float chat query docs) = Inr scored"
  shows "map snd scored = docs"
proof -
  from assms have m: "scoring_tasks is_decimal py_float chat query docs = map Inr scored"
    by (rule gather_Inr_D)
  show ?thesis
  proof (rule map_zip_Inr_snd)
    show "length [0..<length docs] = length docs" by simp
    show "map (\<lambda>(i, d). score_document is_decimal py_float (chat i) query d)
            (zip [0..<length docs] docs) = map Inr scored"
      using m by (simp add: scoring_tasks_def)
    show "\<And>i d p. score_document is_decimal py_float (chat i) query d = Inr p \<Longrightarrow> snd p = d"
      by (rule score_document_snd)
  qed
qed

lemma scoring_tasks_total:
  assumes "\<forall>d\<in>set docs. \<exists>t. py_prefix 1000 (dict_get d ''section_text'' (PStr [])) = Inr t"
  shows "\<exists>scored. gather (scoring_tasks is_decimal py_float chat query docs) = Inr scored"
proof -
  have "\<forall>x\<in>set (zip [0..<length docs] docs).
          \<exists>y. (\<lambda>(i, d). score_document is_decimal py_float (chat i) query d) x = Inr y"
  proof
    fix x assume "x \<in> set (zip [0..<length docs] docs)"
    then have "snd x \<in> set docs" by (metis in_set_zipE prod.collapse)
    with assms obtain t where "py_prefix 1000 (dict_get (snd x) ''section_text'' (PStr [])) = Inr t"
      by blast
    from score_document_total[OF this, of is_decimal py_float "chat (fst x)" query]
    show "\<exists>y. (\<lambda>(i, d). score_document is_decimal py_float (chat i) query d) x = Inr y"
      by (cases x) auto
  qed
  then show ?thesis unfolding scoring_tasks_def by (rule gather_map_total)
qed

lemma rerank_model_mset:
  "mset (rerank_documents_with_model is_decimal py_float chat query docs) = mset docs"
proof (cases "gather (scoring_tasks is_decimal py_float chat query docs)")
  case (Inl e)
  then show ?thesis by (simp add: rerank_documents_with_model_def)
next
  case (Inr scored)
  then have "rerank_documents_with_model is_decimal py_float chat query docs =
             map snd (sort_by_score_desc scored)"
    by (simp add: rerank_documents_with_model_def)
  then have "mset (rerank_documents_with_model is_decimal py_float chat query docs) =
             mset (map snd scored)"
    by (simp only: mset_sort_by_score_desc)
  with scoring_tasks_docs[OF Inr] show ?thesis by simp
qed

lemma first_number_None:
  "first_number is_decimal s = None \<longleftrightarrow> (\<forall>c\<in>set s. \<not> is_decimal c)"
proof (cases "dropWhile (\<lambda>c. \<not> is_decimal c) s")
  case Nil
  have "first_number is_decimal s = None"
    unfolding first_number_def by (simp only: Nil list.case)
  moreover have "\<forall>c\<in>set s. \<not> is_decimal c"
    using Nil by simp
  ultimately show ?thesis by simp
next
  case (Cons c cs)
  have "first_number is_decimal s \<noteq> None"
    unfolding first_number_def by (simp only: Cons list.case Let_def) simp
  moreover have "\<not> (\<forall>c\<in>set s. \<not> is_decimal c)"
    using Cons by (metis dropWhile_eq_Nil_conv list.distinct(1))
  ultimately show ?thesis by blast
qed

lemma first_number_Some:
  assumes "first_number is_decimal s = Some tok"
  shows "\<exists>pre post. s = pre @ tok @ post \<and> (\<forall>c\<in>set pre. \<not> is_decimal c) \<and>
                    tok \<noteq> [] \<and> is_decimal (hd tok)"
proof -
  let ?pre = "takeWhile (\<lambda>c. \<not> is_decimal c) s"
  let ?rest = "dropWhile (\<lambda>c. \<not> is_decimal c) s"
  let ?int = "takeWhile is_decimal ?rest"
  let ?after = "dropWhile is_decimal ?rest"
  from assms have ne: "?rest \<noteq> []"
    using first_number_None[of is_decimal s] by auto
  then have hd: "is_decimal (hd ?rest)" using hd_dropWhile[of "\<lambda>c. \<not> is_decimal c" s] by simp
  from ne hd have int_ne: "?int \<noteq> []" by (cases ?rest) auto
  from ne hd have int_hd: "hd ?int = hd ?rest" by (cases ?rest) auto
  have s: "s = ?pre @ ?int @ ?after" by simp
  have pre: "\<forall>c\<in>set ?pre. \<not> is_decimal c" by (auto dest: set_takeWhileD)
  from assms ne have tok: "tok = ?int \<or>
      (\<exists>more. ?after = DOT # more \<and> tok = ?int @ [DOT] @ takeWhile is_decimal more)"
    by (auto simp: first_number_def Let_def split: list.splits if_splits)
  then show ?thesis
  proof
    assume "tok = ?int"
    with s pre int_ne int_hd hd show ?thesis by metis
  next
    assume "\<exists>more. ?after = DOT # more \<and> tok = ?int @ [DOT] @ takeWhile is_decimal more"
    then obtain more where a: "?after = DOT # more"
      and t: "tok = ?int @ [DOT] @ takeWhile is_decimal more" by blast
    have "more = takeWhile is_decimal more @ dropWhile is_decimal more" by simp
    with s a t have "s = ?pre @ tok @ dropWhile is_decimal more"
      by (metis append.assoc append_Cons append_Nil)
    moreover from t int_ne have "tok \<noteq> []" by simp
    moreover from t int_ne int_hd hd have "is_decimal (hd tok)" by simp
    ultimately show ?thesis using pre by blast
  qed
qed

lemma score_loop_scores:
  "score_loop encode cos_sim qe docs = Inr scored \<Longrightarrow>
   \<forall>p\<in>set scored. \<exists>emb. encode (dict_get (snd p) ''section_text'' (PStr [])) = Inr emb \<and>
                             fst p = cos_sim qe emb"
proof (induction docs arbitrary: scored)
  case Nil
  then show ?case by simp
next
  case (Cons d ds)
  then show ?case
    by (auto simp: Let_def split: if_splits sum.splits)
qed

lemma example_similarity_run:
  "rerank_documents_with_similarity example_encode example_cos_sim (ascii ''mastite'')
     [doc_febre, doc_blank, doc_bvd, doc_mastite] = Inr [doc_mastite, doc_febre, doc_bvd]"
  by (simp add: rerank_documents_with_similarity_def example_encode_def example_cos_sim_def
                doc_blank_def doc_febre_def doc_bvd_def doc_mastite_def
                dict_get_def truthy_def sort_by_score_desc_def ascii_def)

lemma example_model_run:
  "rerank_documents_with_model ascii_decimal ascii_float example_chat (ascii ''mastite'')
     [doc_febre, doc_mastite, doc_bvd] = [doc_mastite, doc_febre, doc_bvd]"
  by (simp add: rerank_documents_with_model_def scoring_tasks_def score_document_def
                score_text_of_def example_chat_def py_prefix_def
                doc_febre_def doc_bvd_def doc_mastite_def dict_get_def
                first_number_def strip_def ascii_def py_isspace_def ascii_decimal_def DOT_def
                ascii_float_def digits_value_def sort_by_score_desc_def upt_rec)

lemma example_score_loop:
  "score_loop example_encode example_cos_sim (ascii ''mastite'')
     [doc_febre, doc_blank, doc_bvd, doc_mastite]
   = Inr [(0, doc_febre), (0, doc_bvd), (1, doc_mastite)]"
  by (simp add: example_encode_def example_cos_sim_def
                doc_blank_def doc_febre_def doc_bvd_def doc_mastite_def
                dict_get_def truthy_def ascii_def)

lemma example_gather:
  "gather (scoring_tasks ascii_decimal ascii_float example_chat (ascii ''mastite'')
             [doc_febre, doc_mastite, doc_bvd])
   = Inr [(1/2, doc_febre), (4/5, doc_mastite), (1/2, doc_bvd)]"
  by (simp add: scoring_tasks_def score_document_def
                score_text_of_def example_chat_def py_prefix_def
                doc_febre_def doc_bvd_def doc_mastite_def dict_get_def
                first_number_def strip_def ascii_def py_isspace_def ascii_decimal_def DOT_def
                ascii_float_def digits_value_def upt_rec)

text \<open>
  C1, as the spec states it: under both strategies the reranked list is a permutation of
  the input. The similarity strategy skips every document whose \<open>section_text\<close> is absent
  or empty: a single document with empty text comes back as the empty list.
\<close>

theorem rerank_similarity_drops_counterexample:
  "rerank_documents_with_similarity example_encode example_cos_sim (ascii ''mastite'') [doc_blank]
     = Inr [] \<and>
   mset ([] :: doc list) \<noteq> mset [doc_blank]"
  by (simp add: rerank_documents_with_similarity_def example_encode_def doc_blank_def
                dict_get_def truthy_def sort_by_score_desc_def)

text \<open>
  C1, amended: under the similarity strategy the reranked list is a permutation of the
  input documents that have a non-empty \<open>section_text\<close> (the others are dropped, none
  is added), and it is returned whenever the embedding model accepts the query and those
  texts; under the model-scoring strategy the reranked list is a permutation of the whole
  input.
\<close>

theorem rerank_permutation:
  "(rerank_documents_with_similarity encode cos_sim query docs = Inr out \<longrightarrow>
      mset out = mset (filter has_text docs)) \<and>
   ((\<exists>qe. encode (PStr query) = Inr qe) \<and>
    (\<forall>d\<in>set docs. has_text d \<longrightarrow> (\<exists>emb. encode (dict_get d ''section_text'' (PStr [])) = Inr emb))
      \<longrightarrow> (\<exists>ranked. rerank_documents_with_similarity encode cos_sim query docs = Inr ranked)) \<and>
   mset (rerank_documents_with_model is_decimal py_float chat_completion query docs) = mset docs"
proof -
  have a: "rerank_documents_with_similarity encode cos_sim query docs = Inr out \<longrightarrow>
      mset out = mset (filter has_text docs)"
  proof
    assume "rerank_documents_with_similarity encode cos_sim query docs = Inr out"
    from rerank_similarity_Inr[OF this] obtain scored where
      s: "map snd scored = filter has_text docs" and o: "out = map snd (sort_by_score_desc scored)"
      by blast
    from o have "mset out = mset (map snd scored)" by (simp only: mset_sort_by_score_desc)
    with s show "mset out = mset (filter has_text docs)" by simp
  qed
  have b: "(\<exists>qe. encode (PStr query) = Inr qe) \<and>
    (\<forall>d\<in>set docs. has_text d \<longrightarrow> (\<exists>emb. encode (dict_get d ''section_text'' (PStr [])) = Inr emb))
      \<longrightarrow> (\<exists>ranked. rerank_documents_with_similarity encode cos_sim query docs = Inr ranked)"
  proof
    assume h: "(\<exists>qe. encode (PStr query) = Inr qe) \<and>
      (\<forall>d\<in>set docs. has_text d \<longrightarrow> (\<exists>emb. encode (dict_get d ''section_text'' (PStr [])) = Inr emb))"
    then obtain qe where q: "encode (PStr query) = Inr qe" by blast
    from h score_loop_total[of docs encode cos_sim qe]
    obtain scored where "score_loop encode cos_sim qe docs = Inr scored" by blast
    with q show "\<exists>ranked. rerank_documents_with_similarity encode cos_sim query docs = Inr ranked"
      by (simp add: rerank_documents_with_similarity_def)
  qed
  from a b rerank_model_mset show ?thesis by blast
qed

theorem rerank_permutation_witness:
  "rerank_documents_with_similarity example_encode example_cos_sim (ascii ''mastite'')
     [doc_febre, doc_blank, doc_bvd, doc_mastite] = Inr [doc_mastite, doc_febre, doc_bvd] \<and>
   mset [doc_mastite, doc_febre, doc_bvd] =
     mset (filter has_text [doc_febre, doc_blank, doc_bvd, doc_mastite]) \<and>
   (\<exists>ranked. rerank_documents_with_similarity example_encode example_cos_sim (ascii ''mastite'')
               [doc_febre, doc_blank, doc_bvd, doc_mastite] = Inr ranked) \<and>
   mset (rerank_documents_with_model ascii_decimal ascii_float example_chat (ascii ''mastite'')
           [doc_febre, doc_mastite, doc_bvd]) = mset [doc_febre, doc_mastite, doc_bvd]"
proof -
  note t = rerank_permutation
             [where encode = example_encode and cos_sim = example_cos_sim
                and query = "ascii ''mastite''"
                and docs = "[doc_febre, doc_blank, doc_bvd, doc_mastite]"
                and out = "[doc_mastite, doc_febre, doc_bvd]"]
  note u = rerank_permutation
             [where docs = "[doc_febre, doc_mastite, doc_bvd]" and is_decimal = ascii_decimal
                and py_float = ascii_float and chat_completion = example_chat
                and query = "ascii ''mastite''"]
  have h: "(\<exists>qe. example_encode (PStr (ascii ''mastite'')) = Inr qe) \<and>
           (\<forall>d\<in>set [doc_febre, doc_blank, doc_bvd, doc_mastite].
              has_text d \<longrightarrow>
              (\<exists>emb. example_encode (dict_get d ''section_text'' (PStr [])) = Inr emb))"
    by (simp add: example_encode_def doc_febre_def doc_blank_def doc_bvd_def doc_mastite_def
                  dict_get_def)
  show ?thesis
    apply (intro conjI)
       apply (rule example_similarity_run)
      apply (rule mp [OF conjunct1 [OF t] example_similarity_run])
     apply (rule mp [OF conjunct1 [OF conjunct2 [OF t]] h])
    apply (rule conjunct2 [OF conjunct2 [OF u]])
    done
qed

text \<open>
  C6: under both strategies the output is the list of scored documents sorted by
  descending score, and two entries with exactly equal scores keep their relative input
  order: the entry scored earlier stands before the other in the output, and for every
  score value the entries carrying it form the same sequence in the output as in the
  input (of the documents the similarity strategy keeps, of all documents for the model
  strategy).
\<close>

theorem rerank_ties_keep_input_order:
  "(docs \<noteq> [] \<and> encode (PStr query) = Inr qe \<and> score_loop encode cos_sim qe docs = Inr scored \<longrightarrow>
      rerank_documents_with_similarity encode cos_sim query docs
        = Inr (map snd (sort_by_score_desc scored)) \<and>
      map snd scored = filter has_text docs \<and>
      (\<forall>p\<in>set scored. \<exists>emb. encode (dict_get (snd p) ''section_text'' (PStr [])) = Inr emb \<and>
                                fst p = cos_sim qe emb) \<and>
      sorted (rev (map fst (sort_by_score_desc scored))) \<and>
      (\<forall>k. filter (\<lambda>p. fst p = k) (sort_by_score_desc scored) = filter (\<lambda>p. fst p = k) scored) \<and>
      (\<forall>i j. i < j \<and> j < length scored \<and> fst (scored ! i) = fst (scored ! j) \<longrightarrow>
         (\<exists>i' j'. i' < j' \<and> j' < length (sort_by_score_desc scored) \<and>
                  sort_by_score_desc scored ! i' = scored ! i \<and>
                  sort_by_score_desc scored ! j' = scored ! j))) \<and>
   (gather (scoring_tasks is_decimal py_float chat_completion query docs) = Inr mscored \<longrightarrow>
      rerank_documents_with_model is_decimal py_float chat_completion query docs
        = map snd (sort_by_score_desc mscored) \<and>
      map snd mscored = docs \<and>
      sorted (rev (map fst (sort_by_score_desc mscored))) \<and>
      (\<forall>k. filter (\<lambda>p. fst p = k) (sort_by_score_desc mscored) = filter (\<lambda>p. fst p = k) mscored) \<and>
      (\<forall>i j. i < j \<and> j < length mscored \<and> fst (mscored ! i) = fst (mscored ! j) \<longrightarrow>
         (\<exists>i' j'. i' < j' \<and> j' < length (sort_by_score_desc mscored) \<and>
                  sort_by_score_desc mscored ! i' = mscored ! i \<and>
                  sort_by_score_desc mscored ! j' = mscored ! j)))"
proof -
  have pairs: "\<And>sc :: (real \<times> doc) list.
      \<forall>i j. i < j \<and> j < length sc \<and> fst (sc ! i) = fst (sc ! j) \<longrightarrow>
         (\<exists>i' j'. i' < j' \<and> j' < length (sort_by_score_desc sc) \<and>
                  sort_by_score_desc sc ! i' = sc ! i \<and> sort_by_score_desc sc ! j' = sc ! j)"
    using sort_by_score_desc_pairs by blast
  have a: "docs \<noteq> [] \<and> encode (PStr query) = Inr qe \<and> score_loop encode cos_sim qe docs = Inr scored \<longrightarrow>
      rerank_documents_with_similarity encode cos_sim query docs
        = Inr (map snd (sort_by_score_desc scored)) \<and>
      map snd scored = filter has_text docs \<and>
      (\<forall>p\<in>set scored. \<exists>emb. encode (dict_get (snd p) ''section_text'' (PStr [])) = Inr emb \<and>
                                fst p = cos_sim qe emb) \<and>
      sorted (rev (map fst (sort_by_score_desc scored))) \<and>
      (\<forall>k. filter (\<lambda>p. fst p = k) (sort_by_score_desc scored) = filter (\<lambda>p. fst p = k) scored) \<and>
      (\<forall>i j. i < j \<and> j < length scored \<and> fst (scored ! i) = fst (scored ! j) \<longrightarrow>
         (\<exists>i' j'. i' < j' \<and> j' < length (sort_by_score_desc scored) \<and>
                  sort_by_score_desc scored ! i' = scored ! i \<and>
                  sort_by_score_desc scored ! j' = scored ! j))"
  proof (intro impI conjI)
    assume h: "docs \<noteq> [] \<and> encode (PStr query) = Inr qe \<and> score_loop encode cos_sim qe docs = Inr scored"
    then show "rerank_documents_with_similarity encode cos_sim query docs
        = Inr (map snd (sort_by_score_desc scored))"
      by (simp add: rerank_documents_with_similarity_def)
    from h have s: "score_loop encode cos_sim qe docs = Inr scored" by blast
    show "map snd scored = filter has_text docs" using s by (rule score_loop_docs)
    show "\<forall>p\<in>set scored. \<exists>emb. encode (dict_get (snd p) ''section_text'' (PStr [])) = Inr emb \<and>
                                fst p = cos_sim qe emb"
      using s by (rule score_loop_scores)
    show "sorted (rev (map fst (sort_by_score_desc scored)))" by (rule sort_by_score_desc_sorted)
    show "\<forall>k. filter (\<lambda>p. fst p = k) (sort_by_score_desc scored) = filter (\<lambda>p. fst p = k) scored"
      using sort_by_score_desc_stable by blast
    show "\<forall>i j. i < j \<and> j < length scored \<and> fst (scored ! i) = fst (scored ! j) \<longrightarrow>
         (\<exists>i' j'. i' < j' \<and> j' < length (sort_by_score_desc scored) \<and>
                  sort_by_score_desc scored ! i' = scored ! i \<and>
                  sort_by_score_desc scored ! j' = scored ! j)"
      by (rule pairs)
  qed
  have b: "gather (scoring_tasks is_decimal py_float chat_completion query docs) = Inr mscored \<longrightarrow>
      rerank_documents_with_model is_decimal py_float chat_completion query docs
        = map snd (sort_by_score_desc mscored) \<and>
      map snd mscored = docs \<and>
      sorted (rev (map fst (sort_by_score_desc mscored))) \<and>
      (\<forall>k. filter (\<lambda>p. fst p = k) (sort_by_score_desc mscored) = filter (\<lambda>p. fst p = k) mscored) \<and>
      (\<forall>i j. i < j \<and> j < length mscored \<and> fst (mscored ! i) = fst (mscored ! j) \<longrightarrow>
         (\<exists>i' j'. i' < j' \<and> j' < length (sort_by_score_desc mscored) \<and>
                  sort_by_score_desc mscored ! i' = mscored ! i \<and>
                  sort_by_score_desc mscored ! j' = mscored ! j))"
  proof (intro impI conjI)
    assume g: "gather (scoring_tasks is_decimal py_float chat_completion query docs) = Inr mscored"
    then show "rerank_documents_with_model is_decimal py_float chat_completion query docs
        = map snd (sort_by_score_desc mscored)"
      by (simp add: rerank_documents_with_model_def)
    show "map snd mscored = docs" using g by (rule scoring_tasks_docs)
    show "sorted (rev (map fst (sort_by_score_desc mscored)))" by (rule sort_by_score_desc_sorted)
    show "\<forall>k. filter (\<lambda>p. fst p = k) (sort_by_score_desc mscored) = filter (\<lambda>p. fst p = k) mscored"
      using sort_by_score_desc_stable by blast
    show "\<forall>i j. i < j \<and> j < length mscored \<and> fst (mscored ! i) = fst (mscored ! j) \<longrightarrow>
         (\<exists>i' j'. i' < j' \<and> j' < length (sort_by_score_desc mscored) \<and>
                  sort_by_score_desc mscored ! i' = mscored ! i \<and>
                  sort_by_score_desc mscored ! j' = mscored ! j)"
      by (rule pairs)
  qed
  from a b show ?thesis by (rule conjI)
qed

theorem rerank_ties_keep_input_order_witness:
  "rerank_documents_with_similarity example_encode example_cos_sim (ascii ''mastite'')
     [doc_febre, doc_blank, doc_bvd, doc_mastite]
     = Inr (map snd (sort_by_score_desc [(0, doc_febre), (0, doc_bvd), (1, doc_mastite)])) \<and>
   sort_by_score_desc [(0, doc_febre), (0, doc_bvd), (1, doc_mastite)]
     = [(1, doc_mastite), (0, doc_febre), (0, doc_bvd)] \<and>
   (\<forall>k. filter (\<lambda>p. fst p = k) (sort_by_score_desc [(0, doc_febre), (0, doc_bvd), (1, doc_mastite)])
        = filter (\<lambda>p. fst p = k) [(0, doc_febre), (0, doc_bvd), (1, doc_mastite)]) \<and>
   (\<exists>i' j'. i' < j' \<and>
      j' < length (sort_by_score_desc [(0, doc_febre), (0, doc_bvd), (1, doc_mastite)]) \<and>
      sort_by_score_desc [(0, doc_febre), (0, doc_bvd), (1, doc_mastite)] ! i'
        = [(0, doc_febre), (0, doc_bvd), (1, doc_mastite)] ! 0 \<and>
      sort_by_score_desc [(0, doc_febre), (0, doc_bvd), (1, doc_mastite)] ! j'
        = [(0, doc_febre), (0, doc_bvd), (1, doc_mastite)] ! 1) \<and>
   rerank_documents_with_model ascii_decimal ascii_float example_chat (ascii ''mastite'')
     [doc_febre, doc_mastite, doc_bvd]
     = map snd (sort_by_score_desc [(1/2, doc_febre), (4/5, doc_mastite), (1/2, doc_bvd)]) \<and>
   sort_by_score_desc [(1/2, doc_febre), (4/5, doc_mastite), (1/2, doc_bvd)]
     = [(4/5, doc_mastite), (1/2, doc_febre), (1/2, doc_bvd)] \<and>
   (\<forall>k. filter (\<lambda>p. fst p = k)
          (sort_by_score_desc [(1/2, doc_febre), (4/5, doc_mastite), (1/2, doc_bvd)])
        = filter (\<lambda>p. fst p = k) [(1/2, doc_febre), (4/5, doc_mastite), (1/2, doc_bvd)]) \<and>
   (\<exists>i' j'. i' < j' \<and>
      j' < length (sort_by_score_desc [(1/2, doc_febre), (4/5, doc_mastite), (1/2, doc_bvd)]) \<and>
      sort_by_score_desc [(1/2, doc_febre), (4/5, doc_mastite), (1/2, doc_bvd)] ! i'
        = [(1/2, doc_febre), (4/5, doc_mastite), (1/2, doc_bvd)] ! 0 \<and>
      sort_by_score_desc [(1/2, doc_febre), (4/5, doc_mastite), (1/2, doc_bvd)] ! j'
        = [(1/2, doc_febre), (4/5, doc_mastite), (1/2, doc_bvd)] ! 2)"
proof -
  let ?sc = "[(0 :: real, doc_febre), (0, doc_bvd), (1, doc_mastite)]"
  let ?ms = "[(1/2 :: real, doc_febre), (4/5, doc_mastite), (1/2, doc_bvd)]"
  have ne: "[doc_febre, doc_blank, doc_bvd, doc_mastite] \<noteq> []" by simp
  have q: "example_encode (PStr (ascii ''mastite'')) = Inr (ascii ''mastite'')"
    by (simp add: example_encode_def)
  note t = rerank_ties_keep_input_order
             [where docs = "[doc_febre, doc_blank, doc_bvd, doc_mastite]"
                and encode = example_encode and cos_sim = example_cos_sim
                and query = "ascii ''mastite''" and qe = "ascii ''mastite''"
                and scored = ?sc]
  note u = rerank_ties_keep_input_order
             [where docs = "[doc_febre, doc_mastite, doc_bvd]"
                and is_decimal = ascii_decimal and py_float = ascii_float
                and chat_completion = example_chat and query = "ascii ''mastite''"
                and mscored = ?ms]
  have s1: "sort_by_score_desc ?sc = [(1, doc_mastite), (0, doc_febre), (0, doc_bvd)]"
    by (simp add: sort_by_score_desc_def)
  have s2: "sort_by_score_desc ?ms = [(4/5, doc_mastite), (1/2, doc_febre), (1/2, doc_bvd)]"
    by (simp add: sort_by_score_desc_def)
  have c1: "[doc_febre, doc_blank, doc_bvd, doc_mastite] \<noteq> [] \<and>
            example_encode (PStr (ascii ''mastite'')) = Inr (ascii ''mastite'') \<and>
            score_loop example_encode example_cos_sim (ascii ''mastite'')
              [doc_febre, doc_blank, doc_bvd, doc_mastite] = Inr ?sc"
    using ne q example_score_loop by (intro conjI)
  note b1 = mp [OF conjunct1 [OF t] c1]
  note b2 = mp [OF conjunct2 [OF u] example_gather]
  note p1 = conjunct2 [OF conjunct2 [OF conjunct2 [OF conjunct2 [OF conjunct2 [OF b1]]]]]
  note p2 = conjunct2 [OF conjunct2 [OF conjunct2 [OF conjunct2 [OF b2]]]]
  have i1: "(0::nat) < 1 \<and> 1 < length ?sc \<and> fst (?sc ! 0) = fst (?sc ! 1)" by simp
  have i2: "(0::nat) < 2 \<and> 2 < length ?ms \<and> fst (?ms ! 0) = fst (?ms ! 2)" by simp
  show ?thesis
    apply (intro conjI)
           apply (rule conjunct1 [OF b1])
          apply (rule s1)
         apply (rule conjunct1 [OF conjunct2 [OF conjunct2 [OF conjunct2 [OF conjunct2 [OF b1]]]]])
        apply (rule mp [OF spec [OF spec [OF p1]] i1])
       apply (rule conjunct1 [OF b2])
      apply (rule s2)
     apply (rule conjunct1 [OF conjunct2 [OF conjunct2 [OF conjunct2 [OF b2]]]])
    apply (rule mp [OF spec [OF spec [OF p2]] i2])
    done
qed

text \<open>
  C5: in the model-scoring strategy, for a document whose text can be sliced: when the
  scoring call raises, or its reply holds no decimal digit, the document is scored 0.5;
  when the reply holds a number, the score is the value of the first numeric token (what
  precedes it holds no digit) clamped to the interval from 0 to 1. Whatever the client
  does, the batch is scored in full and the output holds every input document.
\<close>

theorem scoring_failure_keeps_document:
  assumes "py_prefix 1000 (dict_get d ''section_text'' (PStr [])) = Inr doc_text"
  shows
   "(failing (scoring_messages query doc_text) = Inl e \<longrightarrow>
       score_document is_decimal py_float failing query d = Inr (0.5, d)) \<and>
    (silent (scoring_messages query doc_text) = Inr r \<and> r ''content'' = Some (PStr reply) \<and>
     (\<forall>c\<in>set (strip reply). \<not> is_decimal c) \<longrightarrow>
       score_document is_decimal py_float silent query d = Inr (0.5, d)) \<and>
    (rating (scoring_messages query doc_text) = Inr r' \<and> r' ''content'' = Some (PStr reply') \<and>
     first_number is_decimal (strip reply') = Some tok \<longrightarrow>
       score_document is_decimal py_float rating query d = Inr (max 0 (min 1 (py_float tok)), d) \<and>
       0 \<le> max 0 (min 1 (py_float tok)) \<and> max 0 (min 1 (py_float tok)) \<le> 1 \<and>
       (\<exists>pre post. strip reply' = pre @ tok @ post \<and> (\<forall>c\<in>set pre. \<not> is_decimal c) \<and>
                    tok \<noteq> [] \<and> is_decimal (hd tok))) \<and>
    mset (rerank_documents_with_model is_decimal py_float chat_completion query docs) = mset docs \<and>
    ((\<forall>x\<in>set docs. \<exists>t. py_prefix 1000 (dict_get x ''section_text'' (PStr [])) = Inr t) \<longrightarrow>
       (\<exists>scored. gather (scoring_tasks is_decimal py_float chat_completion query docs) = Inr scored \<and>
                 map snd scored = docs \<and>
                 rerank_documents_with_model is_decimal py_float chat_completion query docs
                   = map snd (sort_by_score_desc scored)))"
proof -
  note eq = score_document_eq[OF assms]
  have a: "failing (scoring_messages query doc_text) = Inl e \<longrightarrow>
       score_document is_decimal py_float failing query d = Inr (0.5, d)"
    by (simp add: eq score_text_of_def)
  have b: "silent (scoring_messages query doc_text) = Inr r \<and> r ''content'' = Some (PStr reply) \<and>
     (\<forall>c\<in>set (strip reply). \<not> is_decimal c) \<longrightarrow>
       score_document is_decimal py_float silent query d = Inr (0.5, d)"
  proof
    assume h: "silent (scoring_messages query doc_text) = Inr r \<and> r ''content'' = Some (PStr reply) \<and>
     (\<forall>c\<in>set (strip reply). \<not> is_decimal c)"
    then have "first_number is_decimal (strip reply) = None" by (simp add: first_number_None)
    with h show "score_document is_decimal py_float silent query d = Inr (0.5, d)"
      by (simp add: eq score_text_of_def)
  qed
  have c: "rating (scoring_messages query doc_text) = Inr r' \<and> r' ''content'' = Some (PStr reply') \<and>
     first_number is_decimal (strip reply') = Some tok \<longrightarrow>
       score_document is_decimal py_float rating query d = Inr (max 0 (min 1 (py_float tok)), d) \<and>
       0 \<le> max 0 (min 1 (py_float tok)) \<and> max 0 (min 1 (py_float tok)) \<le> 1 \<and>
       (\<exists>pre post. strip reply' = pre @ tok @ post \<and> (\<forall>c\<in>set pre. \<not> is_decimal c) \<and>
                    tok \<noteq> [] \<and> is_decimal (hd tok))"
  proof
    assume h: "rating (scoring_messages query doc_text) = Inr r' \<and> r' ''content'' = Some (PStr reply') \<and>
     first_number is_decimal (strip reply') = Some tok"
    then have s: "score_document is_decimal py_float rating query d
                    = Inr (max 0 (min 1 (py_float tok)), d)"
      by (simp add: eq score_text_of_def)
    have r: "0 \<le> max 0 (min 1 (py_float tok)) \<and> max 0 (min 1 (py_float tok)) \<le> 1" by simp
    from h have "first_number is_decimal (strip reply') = Some tok" by blast
    from first_number_Some[OF this] s r
    show "score_document is_decimal py_float rating query d = Inr (max 0 (min 1 (py_float tok)), d) \<and>
       0 \<le> max 0 (min 1 (py_float tok)) \<and> max 0 (min 1 (py_float tok)) \<le> 1 \<and>
       (\<exists>pre post. strip reply' = pre @ tok @ post \<and> (\<forall>c\<in>set pre. \<not> is_decimal c) \<and>
                    tok \<noteq> [] \<and> is_decimal (hd tok))"
      by blast
  qed
  have e: "(\<forall>x\<in>set docs. \<exists>t. py_prefix 1000 (dict_get x ''section_text'' (PStr [])) = Inr t) \<longrightarrow>
       (\<exists>scored. gather (scoring_tasks is_decimal py_float chat_completion query docs) = Inr scored \<and>
                 map snd scored = docs \<and>
                 rerank_documents_with_model is_decimal py_float chat_completion query docs
                   = map snd (sort_by_score_desc scored))"
  proof
    assume "\<forall>x\<in>set docs. \<exists>t. py_prefix 1000 (dict_get x ''section_text'' (PStr [])) = Inr t"
    from scoring_tasks_total[OF this] obtain scored where
      g: "gather (scoring_tasks is_decimal py_float chat_completion query docs) = Inr scored"
      by blast
    then have "rerank_documents_with_model is_decimal py_float chat_completion query docs
                   = map snd (sort_by_score_desc scored)"
      by (simp add: rerank_documents_with_model_def)
    with g scoring_tasks_docs[OF g]
    show "\<exists>scored. gather (scoring_tasks is_decimal py_float chat_completion query docs) = Inr scored \<and>
                 map snd scored = docs \<and>
                 rerank_documents_with_model is_decimal py_float chat_completion query docs
                   = map snd (sort_by_score_desc scored)"
      by blast
  qed
  from a b c rerank_model_mset e show ?thesis by blast
qed

theorem scoring_failure_keeps_document_witness:
  "score_document ascii_decimal ascii_float (example_chat 0) (ascii ''mastite'') doc_febre
     = Inr (0.5, doc_febre) \<and>
   score_document ascii_decimal ascii_float (example_chat 2) (ascii ''mastite'') doc_febre
     = Inr (0.5, doc_febre) \<and>
   score_document ascii_decimal ascii_float (example_chat 1) (ascii ''mastite'') doc_febre
     = Inr (max 0 (min 1 (ascii_float (ascii ''0.8''))), doc_febre) \<and>
   max 0 (min 1 (ascii_float (ascii ''0.8''))) = 4 / 5 \<and>
   mset (rerank_documents_with_model ascii_decimal ascii_float example_chat (ascii ''mastite'')
           [doc_febre, doc_mastite, doc_bvd]) = mset [doc_febre, doc_mastite, doc_bvd] \<and>
   (\<exists>scored.
      gather (scoring_tasks ascii_decimal ascii_float example_chat (ascii ''mastite'')
                [doc_febre, doc_mastite, doc_bvd]) = Inr scored \<and>
      map snd scored = [doc_febre, doc_mastite, doc_bvd] \<and>
      rerank_documents_with_model ascii_decimal ascii_float example_chat (ascii ''mastite'')
        [doc_febre, doc_mastite, doc_bvd] = map snd (sort_by_score_desc scored))"
proof -
  have h0: "py_prefix 1000 (dict_get doc_febre ''section_text'' (PStr [])) = Inr (ascii ''febre'')"
    by (simp add: py_prefix_def dict_get_def doc_febre_def ascii_def)
  note t = scoring_failure_keeps_document
             [OF h0, where query = "ascii ''mastite''" and is_decimal = ascii_decimal
                and py_float = ascii_float and chat_completion = example_chat
                and docs = "[doc_febre, doc_mastite, doc_bvd]"
                and failing = "example_chat 0" and e = ExternalError
                and silent = "example_chat 2" and r = "[''content'' \<mapsto> PStr (ascii ''high'')]"
                and reply = "ascii ''high''"
                and rating = "example_chat 1"
                and r' = "[''content'' \<mapsto> PStr (ascii ''Score: 0.8 '')]"
                and reply' = "ascii ''Score: 0.8 ''" and tok = "ascii ''0.8''"]
  have a: "example_chat 0 (scoring_messages (ascii ''mastite'') (ascii ''febre'')) = Inl ExternalError"
    by (simp add: example_chat_def)
  have b: "example_chat 2 (scoring_messages (ascii ''mastite'') (ascii ''febre''))
             = Inr [''content'' \<mapsto> PStr (ascii ''high'')] \<and>
           [''content'' \<mapsto> PStr (ascii ''high'')] ''content'' = Some (PStr (ascii ''high'')) \<and>
           (\<forall>c\<in>set (strip (ascii ''high'')). \<not> ascii_decimal c)"
    by (simp add: example_chat_def strip_def ascii_def py_isspace_def ascii_decimal_def)
  have c: "example_chat 1 (scoring_messages (ascii ''mastite'') (ascii ''febre''))
             = Inr [''content'' \<mapsto> PStr (ascii ''Score: 0.8 '')] \<and>
           [''content'' \<mapsto> PStr (ascii ''Score: 0.8 '')] ''content''
             = Some (PStr (ascii ''Score: 0.8 '')) \<and>
           first_number ascii_decimal (strip (ascii ''Score: 0.8 '')) = Some (ascii ''0.8'')"
    by (simp add: example_chat_def first_number_def strip_def ascii_def py_isspace_def
                  ascii_decimal_def DOT_def)
  have d: "\<forall>x\<in>set [doc_febre, doc_mastite, doc_bvd].
             \<exists>t. py_prefix 1000 (dict_get x ''section_text'' (PStr [])) = Inr t"
    by (simp add: py_prefix_def dict_get_def doc_febre_def doc_mastite_def doc_bvd_def)
  have v: "max 0 (min 1 (ascii_float (ascii ''0.8''))) = 4 / 5"
    by (simp add: ascii_float_def ascii_def DOT_def digits_value_def)
  note t1 = mp [OF conjunct1 [OF t] a]
  note t2 = mp [OF conjunct1 [OF conjunct2 [OF t]] b]
  note t3 = mp [OF conjunct1 [OF conjunct2 [OF conjunct2 [OF t]]] c]
  note t4 = conjunct1 [OF conjunct2 [OF conjunct2 [OF conjunct2 [OF t]]]]
  note t5 = mp [OF conjunct2 [OF conjunct2 [OF conjunct2 [OF conjunct2 [OF t]]]] d]
  show ?thesis
    apply (intro conjI)
         apply (rule t1)
        apply (rule t2)
       apply (rule conjunct1 [OF t3])
      apply (rule v)
     apply (rule t4)
    apply (rule t5)
    done
qed

section \<open>The vector service\<close>

lemma strip_empty_iff: "strip s = [] \<longleftrightarrow> (\<forall>c\<in>set s. py_isspace c)"
proof
  assume "strip s = []"
  then have "dropWhile py_isspace (rev (dropWhile py_isspace s)) = []"
    by (simp add: strip_def)
  then have all: "\<forall>c\<in>set (dropWhile py_isspace s). py_isspace c"
    by simp
  have "dropWhile py_isspace s = []"
  proof (rule ccontr)
    assume ne: "dropWhile py_isspace s \<noteq> []"
    then have "\<not> py_isspace (hd (dropWhile py_isspace s))" by (rule hd_dropWhile)
    moreover from ne have "hd (dropWhile py_isspace s) \<in> set (dropWhile py_isspace s)" by simp
    ultimately show False using all by blast
  qed
  then show "\<forall>c\<in>set s. py_isspace c" by simp
next
  assume "\<forall>c\<in>set s. py_isspace c"
  then show "strip s = []"
    by (auto simp: strip_def dest: set_dropWhileD)
qed

lemma str_of_nat_nonempty: "str_of_nat n \<noteq> []"
  by (subst str_of_nat.simps) simp

lemma process_document_Inr:
  assumes "get_dense_embedding embedding_dim encode (dict_get d ''section_text'' (PStr [])) = Inr vec"
  shows "\<exists>r. process_document embedding_dim encode i d = Inr r \<and> dense_vector r = vec \<and>
             id_key r \<noteq> [] \<and> chunk_id r = id_key r \<and>
             id_key r = (if strip (py_str (dict_get d ''chunk_id'' (PStr []))) = []
                         then ascii ''chunk_'' @ str_of_nat (i + 1)
                         else strip (py_str (dict_get d ''chunk_id'' (PStr []))))"
  using assms by (simp add: process_document_def Let_def str_of_nat_nonempty)

lemma process_document_id_nonempty:
  "process_document embedding_dim encode i d = Inr r \<Longrightarrow> id_key r \<noteq> [] \<and> chunk_id r = id_key r"
  by (auto simp: process_document_def Let_def str_of_nat_nonempty split: sum.splits if_splits)

lemma process_document_Inl:
  "process_document embedding_dim encode i d = Inl e \<Longrightarrow>
   get_dense_embedding embedding_dim encode (dict_get d ''section_text'' (PStr [])) = Inl e"
  by (auto simp: process_document_def Let_def split: sum.splits)

lemma prepare_data_set:
  "set (prepare_data embedding_dim encode ps) =
   {r. \<exists>i d. (i, d) \<in> set ps \<and> process_document embedding_dim encode i d = Inr r}"
proof (induction ps)
  case Nil
  then show ?case by simp
next
  case (Cons p ps)
  obtain i d where p: "p = (i, d)" by (cases p)
  show ?case
  proof (cases "process_document embedding_dim encode i d")
    case (Inl e)
    with Cons p show ?thesis by auto
  next
    case (Inr r)
    with Cons p show ?thesis by auto
  qed
qed

lemma blank_chunk_id:
  assumes "d ''chunk_id'' = None \<or> (\<exists>s. d ''chunk_id'' = Some (PStr s) \<and> (\<forall>c\<in>set s. py_isspace c))"
  shows "strip (py_str (dict_get d ''chunk_id'' (PStr []))) = []"
  using assms by (auto simp: dict_get_def py_str_def strip_empty_iff)

lemma insert_documents_batches:
  "snd (insert_documents embedding_dim encode client_insert docs) = [] \<or>
   snd (insert_documents embedding_dim encode client_insert docs) =
     [prepare_data embedding_dim encode (zip [0..<length docs] docs)]"
  by (auto simp: insert_documents_def Let_def split: sum.splits)

lemma zip_upt_set:
  "(n, d) \<in> set (zip [0..<length docs] docs) \<longleftrightarrow> n < length docs \<and> d = docs ! n"
  by (auto simp: in_set_zip intro!: exI[of _ n])

lemma prepare_data_indexed:
  "r \<in> set (prepare_data embedding_dim encode (zip [0..<length docs] docs)) \<longleftrightarrow>
   (\<exists>n<length docs. process_document embedding_dim encode n (docs ! n) = Inr r)"
  by (auto simp: prepare_data_set zip_upt_set)

lemma example_prepare_ids:
  "map id_key (prepare_data 2 constant_encode
      (zip [0..<length [chunk_named, chunk_unnamed, chunk_blank_name]]
           [chunk_named, chunk_unnamed, chunk_blank_name]))
   = [ascii ''c-1'', ascii ''chunk_2'', ascii ''chunk_3'']"
  by (simp add: upt_rec process_document_def get_dense_embedding_def constant_encode_def
                chunk_named_def chunk_unnamed_def chunk_blank_name_def dict_get_def py_str_def
                strip_def py_isspace_def ascii_def str_of_nat.simps Let_def)

text \<open>
  C8: for a text that is empty or holds only whitespace, the embedding is the zero vector
  of the service's dimension; the embedding model is not consulted, so the result is the
  same for a model that would raise.
\<close>

theorem blank_text_zero_vector:
  assumes "\<forall>c\<in>set text. py_isspace c"
  shows "get_dense_embedding embedding_dim encode (PStr text) = Inr (replicate embedding_dim 0) \<and>
         length (replicate embedding_dim (0::real)) = embedding_dim \<and>
         (\<forall>x\<in>set (replicate embedding_dim (0::real)). x = 0)"
  using assms by (simp add: get_dense_embedding_def strip_empty_iff)

theorem blank_text_zero_vector_witness:
  "get_dense_embedding 384 failing_encode (PStr []) = Inr (replicate 384 0) \<and>
   get_dense_embedding 384 failing_encode (PStr [32, 9, 10, 160]) = Inr (replicate 384 0) \<and>
   length (replicate 384 (0::real)) = 384"
proof -
  have e: "\<forall>c\<in>set ([] :: pystr). py_isspace c" by simp
  have w: "\<forall>c\<in>set [32, 9, 10, 160]. py_isspace c" by (simp add: py_isspace_def)
  note t1 = blank_text_zero_vector [OF e, of 384 failing_encode]
  note t2 = blank_text_zero_vector [OF w, of 384 failing_encode]
  show ?thesis
    apply (intro conjI)
      apply (rule conjunct1 [OF t1])
     apply (rule conjunct1 [OF t2])
    apply (rule conjunct1 [OF conjunct2 [OF t1]])
    done
qed

text \<open>
  C10: a record whose \<open>chunk_id\<close> is absent, empty or only whitespace, at index \<open>i\<close> of the
  batch, is stored under the identifier \<open>chunk_\<close> followed by \<open>i + 1\<close>, as its \<open>id\<close> and its
  \<open>chunk_id\<close>. A record is skipped only when its embedding raises, never for its
  \<open>chunk_id\<close>. Every record of a batch handed to the store has a non-empty \<open>id\<close> and comes
  from the record at some index of the input; every record that was processed is in the
  batch handed to the store.
\<close>

theorem insert_documents_chunk_id:
  "(get_dense_embedding embedding_dim encode (dict_get d ''section_text'' (PStr [])) = Inr vec \<and>
    (d ''chunk_id'' = None \<or>
     (\<exists>s. d ''chunk_id'' = Some (PStr s) \<and> (\<forall>c\<in>set s. py_isspace c))) \<longrightarrow>
      (\<exists>r. process_document embedding_dim encode i d = Inr r \<and>
           id_key r = ascii ''chunk_'' @ str_of_nat (i + 1) \<and> chunk_id r = id_key r)) \<and>
   (process_document embedding_dim encode j x = Inl e \<longrightarrow>
      get_dense_embedding embedding_dim encode (dict_get x ''section_text'' (PStr [])) = Inl e) \<and>
   (\<forall>batch\<in>set (snd (insert_documents embedding_dim encode client_insert docs)).
      \<forall>r\<in>set batch. id_key r \<noteq> [] \<and> chunk_id r = id_key r \<and>
        (\<exists>n<length docs. process_document embedding_dim encode n (docs ! n) = Inr r)) \<and>
   (n < length docs \<and> process_document embedding_dim encode n (docs ! n) = Inr r' \<longrightarrow>
      (\<exists>batch. snd (insert_documents embedding_dim encode client_insert docs) = [batch] \<and>
               r' \<in> set batch))"
proof -
  have a: "get_dense_embedding embedding_dim encode (dict_get d ''section_text'' (PStr [])) = Inr vec \<and>
    (d ''chunk_id'' = None \<or>
     (\<exists>s. d ''chunk_id'' = Some (PStr s) \<and> (\<forall>c\<in>set s. py_isspace c))) \<longrightarrow>
      (\<exists>r. process_document embedding_dim encode i d = Inr r \<and>
           id_key r = ascii ''chunk_'' @ str_of_nat (i + 1) \<and> chunk_id r = id_key r)"
  proof
    assume h: "get_dense_embedding embedding_dim encode (dict_get d ''section_text'' (PStr [])) = Inr vec \<and>
      (d ''chunk_id'' = None \<or>
       (\<exists>s. d ''chunk_id'' = Some (PStr s) \<and> (\<forall>c\<in>set s. py_isspace c)))"
    then have b: "strip (py_str (dict_get d ''chunk_id'' (PStr []))) = []"
      using blank_chunk_id by blast
    from h have "get_dense_embedding embedding_dim encode (dict_get d ''section_text'' (PStr [])) = Inr vec"
      by blast
    from process_document_Inr[OF this, of i] b
    show "\<exists>r. process_document embedding_dim encode i d = Inr r \<and>
           id_key r = ascii ''chunk_'' @ str_of_nat (i + 1) \<and> chunk_id r = id_key r"
      by auto
  qed
  have b: "process_document embedding_dim encode j x = Inl e \<longrightarrow>
      get_dense_embedding embedding_dim encode (dict_get x ''section_text'' (PStr [])) = Inl e"
    using process_document_Inl by blast
  have c: "\<forall>batch\<in>set (snd (insert_documents embedding_dim encode client_insert docs)).
      \<forall>r\<in>set batch. id_key r \<noteq> [] \<and> chunk_id r = id_key r \<and>
        (\<exists>n<length docs. process_document embedding_dim encode n (docs ! n) = Inr r)"
  proof (intro ballI)
    fix batch r
    assume "batch \<in> set (snd (insert_documents embedding_dim encode client_insert docs))"
      and r: "r \<in> set batch"
    with insert_documents_batches[of embedding_dim encode client_insert docs]
    have "batch = prepare_data embedding_dim encode (zip [0..<length docs] docs)" by auto
    with r obtain n where n: "n < length docs"
      and p: "process_document embedding_dim encode n (docs ! n) = Inr r"
      using prepare_data_indexed by blast
    from process_document_id_nonempty[OF p] n p
    show "id_key r \<noteq> [] \<and> chunk_id r = id_key r \<and>
        (\<exists>n<length docs. process_document embedding_dim encode n (docs ! n) = Inr r)"
      by blast
  qed
  have d: "n < length docs \<and> process_document embedding_dim encode n (docs ! n) = Inr r' \<longrightarrow>
      (\<exists>batch. snd (insert_documents embedding_dim encode client_insert docs) = [batch] \<and>
               r' \<in> set batch)"
  proof
    assume h: "n < length docs \<and> process_document embedding_dim encode n (docs ! n) = Inr r'"
    let ?data = "prepare_data embedding_dim encode (zip [0..<length docs] docs)"
    from h have m: "r' \<in> set ?data" using prepare_data_indexed by blast
    then have ne: "?data \<noteq> []" by auto
    from h have "docs \<noteq> []" by auto
    with ne have "snd (insert_documents embedding_dim encode client_insert docs) = [?data]"
      by (simp add: insert_documents_def Let_def split: sum.splits)
    with m show "\<exists>batch. snd (insert_documents embedding_dim encode client_insert docs) = [batch] \<and>
               r' \<in> set batch"
      by blast
  qed
  from a b c d show ?thesis by blast
qed

theorem insert_documents_chunk_id_witness:
  "(\<exists>r. process_document 2 constant_encode 1 chunk_unnamed = Inr r \<and>
        id_key r = ascii ''chunk_'' @ str_of_nat (1 + 1) \<and> chunk_id r = id_key r) \<and>
   ascii ''chunk_'' @ str_of_nat (1 + 1) = ascii ''chunk_2'' \<and>
   (\<exists>r. process_document 2 constant_encode 2 chunk_blank_name = Inr r \<and>
        id_key r = ascii ''chunk_'' @ str_of_nat (2 + 1) \<and> chunk_id r = id_key r) \<and>
   process_document 2 failing_encode 0 chunk_named = Inl ExternalError \<and>
   get_dense_embedding 2 failing_encode (dict_get chunk_named ''section_text'' (PStr []))
     = Inl ExternalError \<and>
   (\<exists>r batch. process_document 2 constant_encode 1 chunk_unnamed = Inr r \<and>
      snd (insert_documents 2 constant_encode accepting_insert
             [chunk_named, chunk_unnamed, chunk_blank_name]) = [batch] \<and> r \<in> set batch) \<and>
   map id_key (prepare_data 2 constant_encode
      (zip [0..<length [chunk_named, chunk_unnamed, chunk_blank_name]]
           [chunk_named, chunk_unnamed, chunk_blank_name]))
     = [ascii ''c-1'', ascii ''chunk_2'', ascii ''chunk_3'']"
proof -
  let ?docs = "[chunk_named, chunk_unnamed, chunk_blank_name]"
  have h1: "get_dense_embedding 2 constant_encode (dict_get chunk_unnamed ''section_text'' (PStr []))
              = Inr [1, 0] \<and>
            (chunk_unnamed ''chunk_id'' = None \<or>
             (\<exists>s. chunk_unnamed ''chunk_id'' = Some (PStr s) \<and> (\<forall>c\<in>set s. py_isspace c)))"
    by (simp add: get_dense_embedding_def constant_encode_def chunk_unnamed_def dict_get_def
                  strip_def py_isspace_def ascii_def)
  have h2: "get_dense_embedding 2 constant_encode (dict_get chunk_blank_name ''section_text'' (PStr []))
              = Inr [0, 0] \<and>
            (chunk_blank_name ''chunk_id'' = None \<or>
             (\<exists>s. chunk_blank_name ''chunk_id'' = Some (PStr s) \<and> (\<forall>c\<in>set s. py_isspace c)))"
    by (simp add: get_dense_embedding_def chunk_blank_name_def dict_get_def
                  strip_def py_isspace_def ascii_def numeral_2_eq_2)
  have h3: "process_document 2 failing_encode 0 chunk_named = Inl ExternalError"
    by (simp add: process_document_def get_dense_embedding_def failing_encode_def
                  chunk_named_def dict_get_def strip_def py_isspace_def ascii_def)
  note t1 = mp [OF conjunct1 [OF insert_documents_chunk_id
                  [where embedding_dim = 2 and encode = constant_encode and d = chunk_unnamed
                     and vec = "[1, 0]" and i = 1]] h1]
  note t2 = mp [OF conjunct1 [OF insert_documents_chunk_id
                  [where embedding_dim = 2 and encode = constant_encode and d = chunk_blank_name
                     and vec = "[0, 0]" and i = 2]] h2]
  note t3 = mp [OF conjunct1 [OF conjunct2 [OF insert_documents_chunk_id
                  [where embedding_dim = 2 and encode = failing_encode and j = 0
                     and x = chunk_named and e = ExternalError]]] h3]
  have n: "ascii ''chunk_'' @ str_of_nat (1 + 1) = ascii ''chunk_2''"
    by (simp add: ascii_def str_of_nat.simps)
  have t4: "\<exists>r batch. process_document 2 constant_encode 1 chunk_unnamed = Inr r \<and>
      snd (insert_documents 2 constant_encode accepting_insert ?docs) = [batch] \<and> r \<in> set batch"
  proof -
    from t1 obtain r where r: "process_document 2 constant_encode 1 chunk_unnamed = Inr r"
      by blast
    then have h4: "1 < length ?docs \<and> process_document 2 constant_encode 1 (?docs ! 1) = Inr r"
      by simp
    note t = mp [OF conjunct2 [OF conjunct2 [OF conjunct2 [OF insert_documents_chunk_id
                  [where embedding_dim = 2 and encode = constant_encode and n = 1
                     and docs = ?docs and r' = r and client_insert = accepting_insert]]]] h4]
    with r show ?thesis by blast
  qed
  show ?thesis
    apply (intro conjI)
          apply (rule t1)
         apply (rule n)
        apply (rule t2)
       apply (rule h3)
      apply (rule t3)
     apply (rule t4)
    apply (rule example_prepare_ids)
    done
qed

section \<open>The orchestrator\<close>

lemma startup_Inr:
  "startup nvs init svc = (Inr u, svc') \<Longrightarrow>
   (\<exists>vs. vector_service svc' = Some vs) \<and> top_k_default svc' = top_k_default svc"
  by (auto simp: startup_def split: if_splits sum.splits)

lemma py_take_length: "0 \<le> k \<Longrightarrow> int (length (py_take k xs)) \<le> k"
  by (simp add: py_take_def)

lemma py_take_subset: "set (py_take k xs) \<subseteq> set xs"
  by (auto simp: py_take_def dest: in_set_takeD)

lemma gather_length: "gather rs = Inr xs \<Longrightarrow> length xs = length rs"
  by (drule gather_Inr_D) simp

lemma gather_map_results:
  "gather (map f xs) = Inr ys \<Longrightarrow> \<forall>y\<in>set ys. \<exists>x\<in>set xs. f x = Inr y"
proof -
  assume "gather (map f xs) = Inr ys"
  then have "map f xs = map Inr ys" by (rule gather_Inr_D)
  then have "Inr ` set ys = f ` set xs" by (metis list.set_map)
  then show ?thesis by (metis image_iff)
qed

lemma source_entry_preview:
  "source_entry d = Inr s \<Longrightarrow> \<exists>p. s ''content_preview'' = Some (PStr p) \<and> length p \<le> 200"
  by (auto simp: source_entry_def py_prefix_def split: sum.splits pyval.splits)

lemma source_entry_total:
  "d ''section_text'' = None \<or> (\<exists>t. d ''section_text'' = Some (PStr t)) \<Longrightarrow>
   \<exists>s. source_entry d = Inr s"
  by (auto simp: source_entry_def py_prefix_def dict_get_def)

lemma ask_Inr_sources:
  assumes "ask nvs init search encode cos_sim svc query top_k_arg = (Inr res, svc', calls)"
  shows "sources res = [] \<or>
         (\<exists>ranked. gather (map source_entry
                     (py_take (top_k_or_default top_k_arg (top_k_default svc')) ranked))
                   = Inr (sources res))"
  using assms
  by (auto simp: ask_def Let_def split: prod.splits sum.splits option.splits if_splits)

lemma generate_rag_response_total:
  assumes "\<forall>d\<in>set (take 3 docs). d ''section_text'' = None \<or> (\<exists>s. d ''section_text'' = Some (PStr s))"
  shows "\<exists>ans. generate_rag_response query docs = Inr ans"
proof -
  from assms have "\<forall>d\<in>set (take 3 docs). \<exists>b. citation_block d = Inr b"
    using citation_block_total by blast
  then obtain blocks where "gather (map citation_block (take 3 docs)) = Inr blocks"
    using gather_map_total by blast
  then show ?thesis by (simp add: generate_rag_response_def)
qed

lemma ask_returns:
  assumes st: "startup nvs init svc = (Inr (), svc')"
    and vs: "vector_service svc' = Some vs"
    and k: "top_k = top_k_or_default top_k_arg (top_k_default svc')"
    and se: "search vs query (top_k * 2) = Inr docs"
    and ne: "docs \<noteq> []"
    and tx: "\<forall>d\<in>set docs. d ''section_text'' = None \<or> (\<exists>s. d ''section_text'' = Some (PStr s))"
    and qe: "\<exists>qe. encode (PStr query) = Inr qe"
    and enc: "\<forall>d\<in>set docs. has_text d \<longrightarrow>
                (\<exists>emb. encode (dict_get d ''section_text'' (PStr [])) = Inr emb)"
  shows "\<exists>ranked text srcs.
           rerank_documents_with_similarity encode cos_sim query docs = Inr ranked \<and>
           mset ranked = mset (filter has_text docs) \<and>
           ask nvs init search encode cos_sim svc query top_k_arg =
             (Inr \<lparr>answer = text, sources = srcs\<rparr>, svc',
              [CallSearch query (top_k * 2), CallRerank query docs,
               CallSynthesize query (py_take top_k ranked)]) \<and>
           length srcs = length (py_take top_k ranked)"
proof -
  from qe obtain qe' where q: "encode (PStr query) = Inr qe'" by blast
  from enc score_loop_total[of docs encode cos_sim qe']
  obtain scored' where "score_loop encode cos_sim qe' docs = Inr scored'" by blast
  with q ne obtain ranked where
    r: "rerank_documents_with_similarity encode cos_sim query docs = Inr ranked"
    by (simp add: rerank_documents_with_similarity_def)
  from rerank_similarity_Inr[OF r] obtain scored where
    s: "map snd scored = filter has_text docs" and o: "ranked = map snd (sort_by_score_desc scored)"
    by blast
  from o have "mset ranked = mset (map snd scored)" by (simp only: mset_sort_by_score_desc)
  with s have m: "mset ranked = mset (filter has_text docs)" by simp
  then have "set ranked = set (filter has_text docs)" by (rule mset_eq_setD)
  then have sub: "set ranked \<subseteq> set docs" by auto
  let ?selected = "py_take top_k ranked"
  have sel: "set ?selected \<subseteq> set docs" using py_take_subset[of top_k ranked] sub by blast
  then have ok: "\<forall>d\<in>set ?selected. d ''section_text'' = None \<or> (\<exists>s. d ''section_text'' = Some (PStr s))"
    using tx by blast
  then have "\<forall>d\<in>set (take 3 ?selected). d ''section_text'' = None \<or> (\<exists>s. d ''section_text'' = Some (PStr s))"
    by (meson in_set_takeD)
  from generate_rag_response_total[OF this]
  obtain ans where g: "generate_rag_response query ?selected = Inr ans" by blast
  from ok have "\<forall>d\<in>set ?selected. \<exists>s. source_entry d = Inr s"
    using source_entry_total by blast
  then obtain srcs where sr: "gather (map source_entry ?selected) = Inr srcs"
    using gather_map_total by blast
  from gather_length[OF sr] have l: "length srcs = length ?selected" by simp
  have "ask nvs init search encode cos_sim svc query top_k_arg =
             (Inr \<lparr>answer = ans, sources = srcs\<rparr>, svc',
              [CallSearch query (top_k * 2), CallRerank query docs,
               CallSynthesize query ?selected])"
    using st vs k[symmetric] se ne r g sr by (simp add: ask_def Let_def)
  with r m l show ?thesis by blast
qed

text \<open>
  C3: for every query and every \<open>top_k\<close> of at least 1, a result returned by \<open>ask\<close> has at
  most \<open>top_k\<close> sources, and the \<open>content_preview\<close> of each source is text of at most 200
  characters. (\<open>ask_returns\<close> says when a result is returned.)
\<close>

theorem ask_sources_bounded:
  "1 \<le> k \<and> ask nvs init search encode cos_sim svc query (Some k) = (Inr res, svc', calls) \<longrightarrow>
     int (length (sources res)) \<le> k \<and>
     (\<forall>s\<in>set (sources res). \<exists>p. s ''content_preview'' = Some (PStr p) \<and> length p \<le> 200)"
proof
  assume h: "1 \<le> k \<and> ask nvs init search encode cos_sim svc query (Some k) = (Inr res, svc', calls)"
  then have k: "1 \<le> k" and a: "ask nvs init search encode cos_sim svc query (Some k) = (Inr res, svc', calls)"
    by blast+
  from k have tk: "top_k_or_default (Some k) (top_k_default svc') = k"
    by (simp add: top_k_or_default_def)
  from ask_Inr_sources[OF a] show "int (length (sources res)) \<le> k \<and>
     (\<forall>s\<in>set (sources res). \<exists>p. s ''content_preview'' = Some (PStr p) \<and> length p \<le> 200)"
  proof
    assume "sources res = []"
    with k show ?thesis by simp
  next
    assume "\<exists>ranked. gather (map source_entry
                     (py_take (top_k_or_default (Some k) (top_k_default svc')) ranked))
                   = Inr (sources res)"
    then obtain ranked where g: "gather (map source_entry (py_take k ranked)) = Inr (sources res)"
      using tk by auto
    from gather_length[OF g] have "length (sources res) = length (py_take k ranked)" by simp
    with py_take_length[of k ranked] k have l: "int (length (sources res)) \<le> k" by simp
    from gather_map_results[OF g] source_entry_preview
    have "\<forall>s\<in>set (sources res). \<exists>p. s ''content_preview'' = Some (PStr p) \<and> length p \<le> 200"
      by blast
    with l show ?thesis by blast
  qed
qed

theorem ask_sources_bounded_witness:
  "\<exists>res svc' calls.
     ask (Inr ()) example_initialize example_search example_encode example_cos_sim
         RAGService_default (ascii ''mastite'') (Some 2) = (Inr res, svc', calls) \<and>
     int (length (sources res)) \<le> 2 \<and> length (sources res) = 2 \<and>
     (\<forall>s\<in>set (sources res). \<exists>p. s ''content_preview'' = Some (PStr p) \<and> length p \<le> 200)"
proof -
  let ?svc' = "(RAGService_default :: unit rag_service)\<lparr>vector_service := Some ()\<rparr>"
  let ?docs = "[doc_febre, doc_bvd, doc_mastite, doc_tristeza]"
  have st: "startup (Inr ()) example_initialize RAGService_default = (Inr (), ?svc')"
    by (simp add: startup_def example_initialize_def RAGService_default_def RAGService_def)
  have vs: "vector_service ?svc' = Some ()" by simp
  have k: "2 = top_k_or_default (Some 2) (top_k_default ?svc')"
    by (simp add: top_k_or_default_def)
  have se: "example_search () (ascii ''mastite'') (2 * 2) = Inr ?docs"
    by (simp add: example_search_def example_corpus_def)
  have ne: "?docs \<noteq> []" by simp
  have tx: "\<forall>d\<in>set ?docs. d ''section_text'' = None \<or> (\<exists>s. d ''section_text'' = Some (PStr s))"
    by (simp add: doc_febre_def doc_bvd_def doc_mastite_def doc_tristeza_def)
  have qe: "\<exists>qe. example_encode (PStr (ascii ''mastite'')) = Inr qe"
    by (simp add: example_encode_def)
  have enc: "\<forall>d\<in>set ?docs. has_text d \<longrightarrow>
                (\<exists>emb. example_encode (dict_get d ''section_text'' (PStr [])) = Inr emb)"
    by (simp add: doc_febre_def doc_bvd_def doc_mastite_def doc_tristeza_def
                  example_encode_def dict_get_def)
  have all: "filter has_text ?docs = ?docs"
    by (simp add: doc_febre_def doc_bvd_def doc_mastite_def doc_tristeza_def
                  dict_get_def truthy_def ascii_def)
  from ask_returns[where nvs = "Inr ()" and init = example_initialize
           and svc = RAGService_default and svc' = ?svc' and vs = "()" and top_k = 2
           and top_k_arg = "Some 2" and search = example_search
           and query = "ascii ''mastite''" and docs = ?docs
           and encode = example_encode and cos_sim = example_cos_sim,
           OF st vs k se ne tx qe enc]
  obtain ranked ans srcs where
    m: "mset ranked = mset (filter has_text ?docs)" and
    a: "ask (Inr ()) example_initialize example_search example_encode example_cos_sim
          RAGService_default (ascii ''mastite'') (Some 2) =
        (Inr \<lparr>answer = ans, sources = srcs\<rparr>, ?svc',
         [CallSearch (ascii ''mastite'') (2 * 2), CallRerank (ascii ''mastite'') ?docs,
          CallSynthesize (ascii ''mastite'') (py_take 2 ranked)])" and
    l: "length srcs = length (py_take 2 ranked)"
    by blast
  from m all have "length ranked = length ?docs" by (metis mset_eq_length)
  then have "length (py_take 2 ranked) = 2" by (simp add: py_take_def)
  with l have l2: "length (sources \<lparr>answer = ans, sources = srcs\<rparr>) = 2" by simp
  have h: "(1::int) \<le> 2 \<and>
     ask (Inr ()) example_initialize example_search example_encode example_cos_sim
          RAGService_default (ascii ''mastite'') (Some 2) =
        (Inr \<lparr>answer = ans, sources = srcs\<rparr>, ?svc',
         [CallSearch (ascii ''mastite'') (2 * 2), CallRerank (ascii ''mastite'') ?docs,
          CallSynthesize (ascii ''mastite'') (py_take 2 ranked)])"
    using a by simp
  note b = mp [OF ask_sources_bounded h]
  from a l2 b show ?thesis by blast
qed

text \<open>
  C4: when the service starts and the vector search returns the empty list, \<open>ask\<close> returns
  the fixed fallback answer with no sources, and the only call it has made is the search:
  neither the reranker nor the synthesizer has run. The result is the same for every
  embedding model, also one that would raise.
\<close>

theorem ask_empty_corpus_fallback:
  assumes "startup nvs init svc = (Inr (), svc')"
    and "vector_service svc' = Some vs"
    and "search vs query (top_k_or_default top_k (top_k_default svc') * 2) = Inr []"
  shows "ask nvs init search encode cos_sim svc query top_k =
           (Inr \<lparr>answer = fallback_answer, sources = []\<rparr>, svc',
            [CallSearch query (top_k_or_default top_k (top_k_default svc') * 2)]) \<and>
         (\<forall>c\<in>set (snd (snd (ask nvs init search encode cos_sim svc query top_k))).
            \<forall>q ds. c \<noteq> CallRerank q ds \<and> c \<noteq> CallSynthesize q ds)"
  using assms by (simp add: ask_def Let_def)

theorem ask_empty_corpus_fallback_witness:
  "ask (Inr ()) example_initialize empty_search example_encode example_cos_sim
       RAGService_default (ascii ''mastitis'') None =
     (Inr \<lparr>answer = fallback_answer, sources = []\<rparr>,
      RAGService_default\<lparr>vector_service := Some ()\<rparr>,
      [CallSearch (ascii ''mastitis'') 10])"
proof -
  let ?svc' = "(RAGService_default :: unit rag_service)\<lparr>vector_service := Some ()\<rparr>"
  have st: "startup (Inr ()) example_initialize RAGService_default = (Inr (), ?svc')"
    by (simp add: startup_def example_initialize_def RAGService_default_def RAGService_def)
  have vs: "vector_service ?svc' = Some ()" by simp
  have se: "empty_search () (ascii ''mastitis'') (top_k_or_default None (top_k_default ?svc') * 2) = Inr []"
    by (simp add: empty_search_def)
  have k: "top_k_or_default None (top_k_default ?svc') * 2 = 10"
    by (simp add: top_k_or_default_def RAGService_default_def RAGService_def)
  from conjunct1 [OF ask_empty_corpus_fallback
         [where nvs = "Inr ()" and init = example_initialize and svc = RAGService_default
            and svc' = ?svc' and vs = "()" and search = empty_search
            and query = "ascii ''mastitis''" and top_k = None
            and encode = example_encode and cos_sim = example_cos_sim, OF st vs se]]
  show ?thesis by (simp only: k)
qed

text \<open>
  C9: a \<open>top_k\<close> of 0 and an omitted \<open>top_k\<close> both make \<open>ask\<close> use the service's default,
  so \<open>ask\<close> with 0 is \<open>ask\<close> with no \<open>top_k\<close>; for a service constructed with the default
  of 5 it is \<open>ask\<close> with 5. On a store of six documents such a call with \<open>top_k = 0\<close>
  searches for 10 candidates and returns 5 sources.
\<close>

theorem ask_falsy_top_k_default:
  "top_k_or_default None (top_k_default svc) = top_k_default svc \<and>
   top_k_or_default (Some 0) (top_k_default svc) = top_k_default svc \<and>
   ask nvs init search encode cos_sim svc query (Some 0) =
     ask nvs init search encode cos_sim svc query None \<and>
   top_k_default (RAGService_default :: unit rag_service) = 5 \<and>
   ask nvs init search encode cos_sim RAGService_default query (Some 0) =
     ask nvs init search encode cos_sim RAGService_default query (Some 5) \<and>
   (\<exists>res svc' calls.
      ask (Inr ()) example_initialize example_search example_encode example_cos_sim
          RAGService_default (ascii ''mastite'') (Some 0) = (Inr res, svc', calls) \<and>
      length (sources res) = 5 \<and> hd calls = CallSearch (ascii ''mastite'') 10)"
proof -
  have a: "top_k_or_default None (top_k_default svc) = top_k_default svc"
    by (simp add: top_k_or_default_def)
  have b: "top_k_or_default (Some 0) (top_k_default svc) = top_k_default svc"
    by (simp add: top_k_or_default_def)
  have c: "ask nvs init search encode cos_sim svc query (Some 0) =
     ask nvs init search encode cos_sim svc query None"
  proof -
    have h: "top_k_or_default (Some 0) = top_k_or_default None"
      by (rule ext) (simp add: top_k_or_default_def)
    show ?thesis unfolding ask_def h by (rule refl)
  qed
  have d: "top_k_default (RAGService_default :: unit rag_service) = 5"
    by (simp add: RAGService_default_def RAGService_def)
  have e: "ask nvs init search encode cos_sim RAGService_default query (Some 0) =
     ask nvs init search encode cos_sim RAGService_default query (Some 5)"
  proof -
    obtain r svc' where st: "startup nvs init (RAGService_default :: 'a rag_service) = (r, svc')"
      by (cases "startup nvs init (RAGService_default :: 'a rag_service)")
    then have k: "top_k_default svc' = 5"
      by (auto simp: startup_def RAGService_default_def RAGService_def split: sum.splits)
    show ?thesis
    proof (cases r)
      case (Inl err)
      with st show ?thesis by (simp add: ask_def)
    next
      case (Inr u)
      show ?thesis
      proof (cases "vector_service svc'")
        case None
        with st Inr show ?thesis by (simp add: ask_def)
      next
        case (Some vs)
        with st Inr k show ?thesis by (simp add: ask_def top_k_or_default_def)
      qed
    qed
  qed
  have f: "\<exists>res svc' calls.
      ask (Inr ()) example_initialize example_search example_encode example_cos_sim
          RAGService_default (ascii ''mastite'') (Some 0) = (Inr res, svc', calls) \<and>
      length (sources res) = 5 \<and> hd calls = CallSearch (ascii ''mastite'') 10"
  proof -
    let ?svc' = "(RAGService_default :: unit rag_service)\<lparr>vector_service := Some ()\<rparr>"
    have st: "startup (Inr ()) example_initialize RAGService_default = (Inr (), ?svc')"
      by (simp add: startup_def example_initialize_def RAGService_default_def RAGService_def)
    have vs: "vector_service ?svc' = Some ()" by simp
    have k: "5 = top_k_or_default (Some 0) (top_k_default ?svc')"
      by (simp add: top_k_or_default_def RAGService_default_def RAGService_def)
    have se: "example_search () (ascii ''mastite'') (5 * 2) = Inr example_corpus"
      by (simp add: example_search_def example_corpus_def)
    have ne: "example_corpus \<noteq> []" by (simp add: example_corpus_def)
    have tx: "\<forall>d\<in>set example_corpus. d ''section_text'' = None \<or> (\<exists>s. d ''section_text'' = Some (PStr s))"
      by (simp add: example_corpus_def doc_febre_def doc_bvd_def doc_mastite_def doc_tristeza_def
                    doc_brucelose_def doc_raiva_def)
    have qe: "\<exists>qe. example_encode (PStr (ascii ''mastite'')) = Inr qe"
      by (simp add: example_encode_def)
    have enc: "\<forall>d\<in>set example_corpus. has_text d \<longrightarrow>
                (\<exists>emb. example_encode (dict_get d ''section_text'' (PStr [])) = Inr emb)"
      by (simp add: example_corpus_def doc_febre_def doc_bvd_def doc_mastite_def doc_tristeza_def
                    doc_brucelose_def doc_raiva_def example_encode_def dict_get_def)
    have all: "filter has_text example_corpus = example_corpus"
      by (simp add: example_corpus_def doc_febre_def doc_bvd_def doc_mastite_def doc_tristeza_def
                    doc_brucelose_def doc_raiva_def dict_get_def truthy_def ascii_def)
    from ask_returns[where nvs = "Inr ()" and init = example_initialize
           and svc = RAGService_default and svc' = ?svc' and vs = "()" and top_k = 5
           and top_k_arg = "Some 0" and search = example_search
           and query = "ascii ''mastite''" and docs = example_corpus
           and encode = example_encode and cos_sim = example_cos_sim,
           OF st vs k se ne tx qe enc]
    obtain ranked ans srcs where
      m: "mset ranked = mset (filter has_text example_corpus)" and
      a: "ask (Inr ()) example_initialize example_search example_encode example_cos_sim
            RAGService_default (ascii ''mastite'') (Some 0) =
          (Inr \<lparr>answer = ans, sources = srcs\<rparr>, ?svc',
           [CallSearch (ascii ''mastite'') (5 * 2), CallRerank (ascii ''mastite'') example_corpus,
            CallSynthesize (ascii ''mastite'') (py_take 5 ranked)])" and
      l: "length srcs = length (py_take 5 ranked)"
      by blast
    from m all have "length ranked = length example_corpus" by (metis mset_eq_length)
    then have "length ranked = 6" by (simp add: example_corpus_def)
    then have "length (py_take 5 ranked) = 5" by (simp add: py_take_def)
    with l a show ?thesis by simp
  qed
  from a b c d e f show ?thesis by blast
qed

end
